theory Spec2Isabelle
  imports Complex_Main
begin

text \<open>
  A model of the synchronisation core of dexie-kit-sync: the outbox and the push
  processor with its retry schedule and dead letters, conflict detection and resolution,
  the change applier and the pull processor, the engine's \<^verbatim>\<open>sync\<close> cycle and table
  pause, and leader election between tabs. State is passed explicitly; the network, the
  clock and the random generator are arguments; a thrown error is the left summand of a
  result. The store itself (keyed tables that do not fail) is taken as given.
\<close>

section \<open>Data model (core/types.ts)\<close>

text \<open>
  Primary keys are \<^verbatim>\<open>string | number\<close>; \<^verbatim>\<open>===\<close> on two keys is equality of
  the tagged value.
\<close>

datatype pkey = KNum int | KStr string

datatype Operation = OpCreate | OpUpdate | OpDelete

text \<open>
  The value of an \<^verbatim>\<open>updatedAt\<close> property: a number of epoch milliseconds, or a
  date string. A string is kept together with the time \<^verbatim>\<open>Date\<close> reads from it,
  \<open>None\<close> when it is not a date (\<^verbatim>\<open>NaN\<close>).
\<close>

datatype jsdate = DateNum int | DateStr string "int option"

text \<open>
  A row of a synced user table. The engine reads three properties of it: \<^verbatim>\<open>id\<close>,
  \<^verbatim>\<open>version\<close> and \<^verbatim>\<open>updatedAt\<close>; everything else travels along unread in
  \<open>content\<close>. A property that is \<^verbatim>\<open>undefined\<close> is \<open>None\<close>.
\<close>

record entity =
  eid :: pkey
  version :: "int option"
  updatedAt :: "jsdate option"
  content :: string

record OutboxItem =
  item_id :: nat
  table :: string
  operation :: Operation
  key :: pkey
  obj :: "entity option"
  attempt :: nat
  createdAt :: int
  lastError :: "string option"
  nextRetryAt :: "int option"

record DeadLetterItem =
  dl_id :: nat
  dl_table :: string
  dl_operation :: Operation
  dl_key :: pkey
  dl_obj :: "entity option"
  dl_error :: string
  dl_errorType :: string
  dl_failedAt :: int
  dl_originalAttempts :: nat

text \<open>
  What \<^verbatim>\<open>adapter.pushItem\<close> rejects with. A classified \<^verbatim>\<open>SyncError\<close> carries its
  \<^verbatim>\<open>type\<close>, \<^verbatim>\<open>retryable\<close> and \<^verbatim>\<open>message\<close>; a plain \<^verbatim>\<open>Error\<close> (no route
  configured) has no \<^verbatim>\<open>type\<close> and an undefined, hence falsy, \<^verbatim>\<open>retryable\<close>.
  \<open>as_string\<close> is what \<^verbatim>\<open>String(error)\<close> yields.
\<close>

record SyncError =
  err_type :: "string option"
  retryable :: bool
  message :: string
  as_string :: string

record ErrorConfig =
  maxRetries :: "nat option"
  retryDelay :: "(nat \<Rightarrow> int) option"

text \<open>
  The transient value the change applier builds for the resolver. A timestamp that is
  \<open>None\<close> is \<^verbatim>\<open>undefined\<close> or \<^verbatim>\<open>NaN\<close>; the strategies read it through
  \<^verbatim>\<open>|| 0\<close>, which takes the two alike.
\<close>

record ConflictInfo =
  c_table :: string
  c_key :: pkey
  local :: entity
  remote :: entity
  localTimestamp :: "int option"
  remoteTimestamp :: "int option"
  localVersion :: "int option"
  remoteVersion :: "int option"

text \<open>
  \<^verbatim>\<open>policy\<close> is a string at run time, whatever its declared union type. A custom
  resolver either throws (\<open>Inl\<close>) or returns the row to keep (\<open>Inr\<close>).
\<close>

record ConflictConfig =
  policy :: string
  onConflict :: "(ConflictInfo \<Rightarrow> string + entity) option"

text \<open>
  Of a table's route entry the engine itself only tests whether \<^verbatim>\<open>push\<close> and
  \<^verbatim>\<open>pull\<close> are present; what they say is the REST adapter's business.
\<close>

record RouteEntry =
  has_push :: bool
  has_pull :: bool

record SyncConfig =
  cfg_routes :: "(string \<times> RouteEntry) list"
  push_batchSize :: "nat option"
  push_concurrency :: "nat option"
  cfg_conflicts :: "ConflictConfig option"
  cfg_errors :: "ErrorConfig option"

record PushResult =
  success :: bool
  pushed :: nat
  failed :: nat
  errors :: "SyncError list"

record PullResult =
  pull_success :: bool
  pulled :: nat
  applied :: nat
  conflicts :: nat
  pull_errors :: "SyncError list"

text \<open>
  The local store: the outbox and the dead letters in primary-key order, each with the
  key generator of its \<^verbatim>\<open>++id\<close>, and the user tables, keyed by table name and
  primary key.
\<close>

record Db =
  outbox :: "OutboxItem list"
  outboxSeq :: nat
  deadLetters :: "DeadLetterItem list"
  deadLetterSeq :: nat
  tables :: "string \<Rightarrow> pkey \<Rightarrow> entity option"

section \<open>Retry backoff (utils/backoff.ts)\<close>

text \<open>
  \<^verbatim>\<open>calculateBackoff(attempt, maxDelay = 60000)\<close>. The draw of \<^verbatim>\<open>Math.random()\<close> is the
  argument \<open>r\<close>; the arithmetic is exact (rationals) and \<^verbatim>\<open>Math.floor\<close> is \<open>floor\<close>.
\<close>

definition calculateBackoff :: "nat \<Rightarrow> rat \<Rightarrow> rat \<Rightarrow> int" where
  "calculateBackoff n maxDelay r =
     (let delay = min (1000 * 2 ^ n) maxDelay;
          jitter = delay * (2 / 10) * (r - 1 / 2)
      in \<lfloor>delay + jitter\<rfloor>)"

abbreviation defaultMaxDelay :: rat where
  "defaultMaxDelay \<equiv> 60000"

section \<open>Outbox manager (push/outbox-manager.ts)\<close>

text \<open>
  The outbox table is the list \<open>outbox db\<close>, one entry per primary key. Each operation
  is the method of the same name; \<^verbatim>\<open>Date.now()\<close> is the argument \<open>now\<close>.
\<close>

definition outbox_add ::
  "string \<Rightarrow> Operation \<Rightarrow> pkey \<Rightarrow> entity option \<Rightarrow> int \<Rightarrow> Db \<Rightarrow> Db" where
  "outbox_add t opn k ob now db =
     db\<lparr>outbox := outbox db @
            [\<lparr>item_id = Suc (outboxSeq db), table = t, operation = opn, key = k, obj = ob,
              attempt = 0, createdAt = now, lastError = None, nextRetryAt = None\<rparr>],
        outboxSeq := Suc (outboxSeq db)\<rparr>"

text \<open>
  \<^verbatim>\<open>getAll(table?)\<close>: ordered by \<^verbatim>\<open>createdAt\<close>; an absent or empty table name is
  falsy and selects every entry.
\<close>

definition outbox_getAll :: "string option \<Rightarrow> Db \<Rightarrow> OutboxItem list" where
  "outbox_getAll t db =
     (let query = sort_key createdAt (outbox db)
      in case t of
           None \<Rightarrow> query
         | Some n \<Rightarrow> if n = [] then query else filter (\<lambda>item. table item = n) query)"

text \<open>
  \<^verbatim>\<open>getPending()\<close>: \<^verbatim>\<open>!item.nextRetryAt || item.nextRetryAt <= now\<close>; a
  \<^verbatim>\<open>nextRetryAt\<close> of 0 is falsy.
\<close>

definition is_pending :: "int \<Rightarrow> OutboxItem \<Rightarrow> bool" where
  "is_pending now item =
     (case nextRetryAt item of None \<Rightarrow> True | Some t \<Rightarrow> t = 0 \<or> t \<le> now)"

definition outbox_getPending :: "int \<Rightarrow> Db \<Rightarrow> OutboxItem list" where
  "outbox_getPending now db = filter (is_pending now) (outbox db)"

definition outbox_remove :: "nat \<Rightarrow> Db \<Rightarrow> Db" where
  "outbox_remove i db = db\<lparr>outbox := filter (\<lambda>item. item_id item \<noteq> i) (outbox db)\<rparr>"

text \<open>
  \<^verbatim>\<open>updateRetry(id, error, nextRetryAt)\<close> reads the stored entry and, when there is
  one, writes its attempt count plus one, the error text and the retry time.
\<close>

definition outbox_updateRetry :: "nat \<Rightarrow> string \<Rightarrow> int \<Rightarrow> Db \<Rightarrow> Db" where
  "outbox_updateRetry i err next db =
     (case find (\<lambda>item. item_id item = i) (outbox db) of
        None \<Rightarrow> db
      | Some stored \<Rightarrow>
          db\<lparr>outbox :=
               map (\<lambda>item. if item_id item = i
                            then item\<lparr>attempt := attempt stored + 1,
                                      lastError := Some err,
                                      nextRetryAt := Some next\<rparr>
                            else item)
                   (outbox db)\<rparr>)"

definition outbox_getDepth :: "string option \<Rightarrow> Db \<Rightarrow> nat" where
  "outbox_getDepth t db =
     (case t of
        None \<Rightarrow> length (outbox db)
      | Some n \<Rightarrow> if n = [] then length (outbox db)
                  else length (filter (\<lambda>item. table item = n) (outbox db)))"

section \<open>Push processor (push/push-processor.ts)\<close>

text \<open>
  What the processor cannot decide by itself comes in from outside: for each outbox
  entry, whether \<^verbatim>\<open>adapter.pushItem\<close> resolves (\<open>None\<close>) or rejects with an error,
  the value of \<^verbatim>\<open>Date.now()\<close> read while its failure is handled, and the draw of
  \<^verbatim>\<open>Math.random()\<close> inside \<^verbatim>\<open>calculateBackoff\<close>.
\<close>

record PushEnv =
  transport :: "OutboxItem \<Rightarrow> SyncError option"
  clock :: "OutboxItem \<Rightarrow> int"
  draw :: "OutboxItem \<Rightarrow> rat"

text \<open>
  \<^verbatim>\<open>getMaxRetries(errorType)\<close> ignores its argument; a missing or zero
  \<^verbatim>\<open>maxRetries\<close> is falsy and gives the default 5.
\<close>

definition getMaxRetries :: "SyncConfig \<Rightarrow> string option \<Rightarrow> nat" where
  "getMaxRetries cfg errorType =
     (case cfg_errors cfg of
        None \<Rightarrow> 5
      | Some ec \<Rightarrow> (case maxRetries ec of
                     None \<Rightarrow> 5
                   | Some m \<Rightarrow> if m = 0 then 5 else m))"

definition getRetryDelay :: "SyncConfig \<Rightarrow> rat \<Rightarrow> nat \<Rightarrow> int" where
  "getRetryDelay cfg r n =
     (case cfg_errors cfg of
        None \<Rightarrow> calculateBackoff n defaultMaxDelay r
      | Some ec \<Rightarrow> (case retryDelay ec of
                     None \<Rightarrow> calculateBackoff n defaultMaxDelay r
                   | Some f \<Rightarrow> f n))"

definition deadLetterOf :: "nat \<Rightarrow> int \<Rightarrow> OutboxItem \<Rightarrow> SyncError \<Rightarrow> DeadLetterItem" where
  "deadLetterOf i now item e =
     \<lparr>dl_id = i, dl_table = table item, dl_operation = operation item, dl_key = key item,
      dl_obj = obj item,
      dl_error = (if message e = [] then as_string e else message e),
      dl_errorType = (case err_type e of
                        None \<Rightarrow> ''unknown''
                      | Some t \<Rightarrow> if t = [] then ''unknown'' else t),
      dl_failedAt = now,
      dl_originalAttempts = attempt item\<rparr>"

definition moveToDeadLetters :: "int \<Rightarrow> OutboxItem \<Rightarrow> SyncError \<Rightarrow> Db \<Rightarrow> Db" where
  "moveToDeadLetters now item e db =
     outbox_remove (item_id item)
       (db\<lparr>deadLetters := deadLetters db @ [deadLetterOf (Suc (deadLetterSeq db)) now item e],
           deadLetterSeq := Suc (deadLetterSeq db)\<rparr>)"

text \<open>
  \<^verbatim>\<open>pushItem(item, result)\<close>: the store and the shared result record go in and come
  out.
\<close>

definition pushItem ::
  "PushEnv \<Rightarrow> SyncConfig \<Rightarrow> OutboxItem \<Rightarrow> Db \<times> PushResult \<Rightarrow> Db \<times> PushResult" where
  "pushItem env cfg item st =
     (case st of (db, res) \<Rightarrow>
        (case transport env item of
           None \<Rightarrow> (outbox_remove (item_id item) db, res\<lparr>pushed := pushed res + 1\<rparr>)
         | Some e \<Rightarrow>
             (let res' = res\<lparr>failed := failed res + 1, errors := errors res @ [e]\<rparr>;
                  maxR = getMaxRetries cfg (err_type e)
              in if maxR \<le> attempt item \<or> \<not> retryable e
                 then (moveToDeadLetters (clock env item) item e db, res')
                 else (let retryDelay = getRetryDelay cfg (draw env item) (attempt item);
                           nextRetry = clock env item + retryDelay
                       in (outbox_updateRetry (item_id item) (message e) nextRetry db, res')))))"

text \<open>
  The loop over one batch. \<open>promises\<close> holds the entries whose \<^verbatim>\<open>pushItem\<close> has been
  dispatched and not yet awaited. Once \<^verbatim>\<open>concurrency\<close> of them are in flight the loop
  awaits the first \<^verbatim>\<open>concurrency\<close> (\<^verbatim>\<open>promises.splice(0, concurrency)\<close>) before it
  dispatches more; after the last entry it awaits what is left. Each \<^verbatim>\<open>pushItem\<close>
  touches its own outbox entry alone, so the model lets the requests of one await settle
  in dispatch order.
\<close>

fun batch_loop ::
  "PushEnv \<Rightarrow> SyncConfig \<Rightarrow> nat \<Rightarrow> OutboxItem list \<Rightarrow> OutboxItem list \<Rightarrow> Db \<times> PushResult
     \<Rightarrow> Db \<times> PushResult" where
  "batch_loop env cfg c [] promises st = fold (pushItem env cfg) promises st"
| "batch_loop env cfg c (item # batch) promises st =
     (let promises' = promises @ [item]
      in if c \<le> length promises'
         then batch_loop env cfg c batch (drop c promises')
                (fold (pushItem env cfg) (take c promises') st)
         else batch_loop env cfg c batch promises' st)"

text \<open>
  The outer loop \<^verbatim>\<open>for (i = 0; i < items.length; i += batchSize)\<close> over the batches
  \<^verbatim>\<open>items.slice(i, i + batchSize)\<close>. A step of 0 would never advance \<open>i\<close>: that run
  has no result (\<open>None\<close>).
\<close>

function push_loop ::
  "PushEnv \<Rightarrow> SyncConfig \<Rightarrow> nat \<Rightarrow> nat \<Rightarrow> OutboxItem list \<Rightarrow> nat \<Rightarrow> Db \<times> PushResult
     \<Rightarrow> (Db \<times> PushResult) option" where
  "push_loop env cfg bs c items i st =
     (if bs = 0 then None
      else if i < length items
           then push_loop env cfg bs c items (i + bs)
                  (batch_loop env cfg c (take bs (drop i items)) [] st)
           else Some st)"
  by pat_completeness auto
termination
  by (relation "measure (\<lambda>(env, cfg, bs, c, items, i, st). length items - i)") auto

declare push_loop.simps [simp del]

text \<open>\<^verbatim>\<open>v || d\<close> on an optional number: a missing value and 0 give the default.\<close>

definition or_default :: "nat option \<Rightarrow> nat \<Rightarrow> nat" where
  "or_default v d = (case v of None \<Rightarrow> d | Some n \<Rightarrow> if n = 0 then d else n)"

text \<open>
  The entries a push works on: the pending ones, narrowed to the table when one is
  given (\<^verbatim>\<open>table ? items.filter(...) : items\<close>; an empty name is falsy).
\<close>

definition filteredItems :: "int \<Rightarrow> string option \<Rightarrow> Db \<Rightarrow> OutboxItem list" where
  "filteredItems now t db =
     (let items = outbox_getPending now db
      in case t of
           None \<Rightarrow> items
         | Some n \<Rightarrow> if n = [] then items else filter (\<lambda>item. table item = n) items)"

text \<open>
  \<^verbatim>\<open>push(table?)\<close>. The store operations of the model cannot throw, so the outer
  \<^verbatim>\<open>catch\<close> has nothing to catch.
\<close>

definition push ::
  "PushEnv \<Rightarrow> SyncConfig \<Rightarrow> int \<Rightarrow> string option \<Rightarrow> Db \<Rightarrow> (Db \<times> PushResult) option" where
  "push env cfg now t db =
     (let result = \<lparr>success = True, pushed = 0, failed = 0, errors = []\<rparr>;
          batchSize = or_default (push_batchSize cfg) 10;
          concurrency = or_default (push_concurrency cfg) 3
      in case push_loop env cfg batchSize concurrency (filteredItems now t db) 0
                (db, result) of
           None \<Rightarrow> None
         | Some (db', res) \<Rightarrow> Some (db', res\<lparr>success := (failed res = 0)\<rparr>))"


section \<open>Conflict resolution (conflict/strategies.ts, conflict/resolver.ts)\<close>

datatype SyncEvent =
    EvSyncStart | EvSyncComplete | EvSyncError
  | EvPushStart | EvPushComplete | EvPushError
  | EvPullStart | EvPullComplete | EvPullError
  | EvConflict | EvOnline | EvOffline | EvStale | EvMetrics

text \<open>
  \<^verbatim>\<open>context.emit(event)\<close> runs the registered handlers, each inside its own
  \<^verbatim>\<open>try\<close>; the model keeps the sequence of events emitted.
\<close>

definition emit :: "SyncEvent \<Rightarrow> SyncEvent list \<Rightarrow> SyncEvent list" where
  "emit ev evs = evs @ [ev]"

definition serverWins :: "ConflictInfo \<Rightarrow> entity" where
  "serverWins conflict = remote conflict"

definition clientWins :: "ConflictInfo \<Rightarrow> entity" where
  "clientWins conflict = local conflict"

text \<open>\<^verbatim>\<open>x || 0\<close> on a number that may be \<^verbatim>\<open>undefined\<close> or \<^verbatim>\<open>NaN\<close>.\<close>

definition or_zero :: "int option \<Rightarrow> int" where
  "or_zero v = (case v of None \<Rightarrow> 0 | Some t \<Rightarrow> t)"

definition lastWriteWins :: "ConflictInfo \<Rightarrow> entity" where
  "lastWriteWins conflict =
     (let localTime = or_zero (localTimestamp conflict);
          remoteTime = or_zero (remoteTimestamp conflict)
      in if localTime > remoteTime then local conflict
         else if remoteTime > localTime then remote conflict
         else remote conflict)"

definition getStrategy :: "string \<Rightarrow> ConflictInfo \<Rightarrow> entity" where
  "getStrategy p =
     (if p = ''server-wins'' then serverWins
      else if p = ''client-wins'' then clientWins
      else if p = ''lww'' then lastWriteWins
      else serverWins)"

text \<open>
  \<^verbatim>\<open>resolve(conflict)\<close>: emits \<^verbatim>\<open>conflict\<close>, then runs the custom resolver when
  the policy is \<^verbatim>\<open>custom\<close> and a resolver is configured, and the built-in strategy
  otherwise.
\<close>

definition resolve ::
  "ConflictConfig \<Rightarrow> ConflictInfo \<Rightarrow> SyncEvent list \<Rightarrow> (string + entity) \<times> SyncEvent list" where
  "resolve cc conflict evs =
     (let evs' = emit EvConflict evs
      in case onConflict cc of
           Some f \<Rightarrow> if policy cc = ''custom'' then (f conflict, evs')
                     else (Inr (getStrategy (policy cc) conflict), evs')
         | None \<Rightarrow> (Inr (getStrategy (policy cc) conflict), evs'))"

text \<open>Truthiness of an optional number: \<^verbatim>\<open>undefined\<close> and 0 are falsy.\<close>

definition truthy :: "int option \<Rightarrow> bool" where
  "truthy v = (case v of None \<Rightarrow> False | Some t \<Rightarrow> t \<noteq> 0)"

text \<open>
  Truthiness of an \<^verbatim>\<open>updatedAt\<close>: \<^verbatim>\<open>undefined\<close>, 0 and the empty string are
  falsy.
\<close>

definition truthyDate :: "jsdate option \<Rightarrow> bool" where
  "truthyDate v =
     (case v of
        None \<Rightarrow> False
      | Some (DateNum n) \<Rightarrow> n \<noteq> 0
      | Some (DateStr s parsed) \<Rightarrow> s \<noteq> [])"

text \<open>
  \<^verbatim>\<open>new Date(v).getTime()\<close>, with \<open>None\<close> for \<^verbatim>\<open>NaN\<close>: a number is its own time
  within the range of \<^verbatim>\<open>Date\<close> (8.64e15 ms either side of the epoch) and no date
  beyond it; \<^verbatim>\<open>undefined\<close> is no date.
\<close>

definition getTime :: "jsdate option \<Rightarrow> int option" where
  "getTime v =
     (case v of
        None \<Rightarrow> None
      | Some (DateNum n) \<Rightarrow> if \<bar>n\<bar> \<le> 8640000000000000 then Some n else None
      | Some (DateStr s parsed) \<Rightarrow> parsed)"

text \<open>\<^verbatim>\<open>a !== b\<close> on two numbers: \<^verbatim>\<open>NaN\<close> is unequal to everything, itself included.\<close>

definition strictNeq :: "int option \<Rightarrow> int option \<Rightarrow> bool" where
  "strictNeq a b = (case (a, b) of (Some x, Some y) \<Rightarrow> x \<noteq> y | _ \<Rightarrow> True)"

text \<open>
  \<^verbatim>\<open>detectConflict(local, remote)\<close>; \<open>None\<close> is a missing local row. The versions are
  tested against \<^verbatim>\<open>undefined\<close>, the timestamps for truthiness.
\<close>

definition detectConflict :: "entity option \<Rightarrow> entity \<Rightarrow> bool" where
  "detectConflict loc rmt =
     (case loc of
        None \<Rightarrow> False
      | Some l \<Rightarrow>
          if version l \<noteq> None \<and> version rmt \<noteq> None then version l \<noteq> version rmt
          else if truthyDate (updatedAt l) \<and> truthyDate (updatedAt rmt)
               then (let localTime = getTime (updatedAt l);
                         remoteTime = getTime (updatedAt rmt)
                     in strictNeq localTime remoteTime)
               else True)"

section \<open>Change applier and pull processor (pull/change-applier.ts, pull/pull-processor.ts)\<close>

text \<open>\<^verbatim>\<open>db.table(t).put(row)\<close>: insert or replace under the row's primary key.\<close>

definition put :: "string \<Rightarrow> entity \<Rightarrow> Db \<Rightarrow> Db" where
  "put t e db = db\<lparr>tables := (tables db)(t := (tables db t)(eid e \<mapsto> e))\<rparr>"

text \<open>\<^verbatim>\<open>row.updatedAt ? new Date(row.updatedAt).getTime() : undefined\<close>.\<close>

definition timestampOf :: "entity \<Rightarrow> int option" where
  "timestampOf e = (if truthyDate (updatedAt e) then getTime (updatedAt e) else None)"

text \<open>
  \<^verbatim>\<open>resolveConflict(table, key, local, remote)\<close>: without a configured resolver the
  remote row wins.
\<close>

definition resolveConflict ::
  "SyncConfig \<Rightarrow> string \<Rightarrow> pkey \<Rightarrow> entity \<Rightarrow> entity \<Rightarrow> SyncEvent list
     \<Rightarrow> (string + entity) \<times> SyncEvent list" where
  "resolveConflict cfg t k l r evs =
     (let conflict = \<lparr>c_table = t, c_key = k, local = l, remote = r,
                      localTimestamp = timestampOf l, remoteTimestamp = timestampOf r,
                      localVersion = version l, remoteVersion = version r\<rparr>
      in case cfg_conflicts cfg of
           Some cc \<Rightarrow> resolve cc conflict evs
         | None \<Rightarrow> (Inr r, evs))"

record ApplyState =
  a_db :: Db
  a_log :: "SyncEvent list"
  a_applied :: nat
  a_conflicts :: nat

definition hasPendingChange :: "string \<Rightarrow> entity \<Rightarrow> Db \<Rightarrow> bool" where
  "hasPendingChange t item db =
     list_ex (\<lambda>change. key change = eid item) (outbox_getAll (Some t) db)"

text \<open>
  The body of the loop of \<^verbatim>\<open>applyChanges\<close>, for one remote row. A custom resolver
  that throws lands in the \<^verbatim>\<open>catch\<close>: the row is not written and not counted as
  applied, the conflict stays counted.
\<close>

definition applyItem :: "SyncConfig \<Rightarrow> string \<Rightarrow> entity \<Rightarrow> ApplyState \<Rightarrow> ApplyState" where
  "applyItem cfg t item st =
     (let db = a_db st
      in if hasPendingChange t item db
         then (let loc = tables db t (eid item)
               in case loc of
                    None \<Rightarrow> st\<lparr>a_db := put t item db, a_applied := a_applied st + 1\<rparr>
                  | Some l \<Rightarrow>
                      if cfg_conflicts cfg \<noteq> None \<and> detectConflict (Some l) item
                      then (case resolveConflict cfg t (eid item) l item (a_log st) of
                              (Inr resolved, evs') \<Rightarrow>
                                st\<lparr>a_db := put t resolved db, a_log := evs',
                                   a_applied := a_applied st + 1,
                                   a_conflicts := a_conflicts st + 1\<rparr>
                            | (Inl err, evs') \<Rightarrow>
                                st\<lparr>a_log := evs', a_conflicts := a_conflicts st + 1\<rparr>)
                      else st\<lparr>a_db := put t item db, a_applied := a_applied st + 1\<rparr>)
         else st\<lparr>a_db := put t item db, a_applied := a_applied st + 1\<rparr>)"

definition applyChanges ::
  "SyncConfig \<Rightarrow> string \<Rightarrow> entity list \<Rightarrow> Db \<times> SyncEvent list \<Rightarrow> ApplyState" where
  "applyChanges cfg t items st =
     fold (applyItem cfg t) items
       \<lparr>a_db = fst st, a_log = snd st, a_applied = 0, a_conflicts = 0\<rparr>"

text \<open>
  \<^verbatim>\<open>adapter.pull(table)\<close> comes in from outside: it rejects with an error or yields
  the remote rows of the table.
\<close>

record PullEnv =
  fetch :: "string \<Rightarrow> SyncError + entity list"

record PullState =
  p_db :: Db
  p_log :: "SyncEvent list"
  p_result :: PullResult

definition pullTable :: "PullEnv \<Rightarrow> SyncConfig \<Rightarrow> string \<Rightarrow> PullState \<Rightarrow> PullState" where
  "pullTable penv cfg tableName st =
     (let result = p_result st
      in case fetch penv tableName of
           Inl e \<Rightarrow> st\<lparr>p_result := result\<lparr>pull_errors := pull_errors result @ [e]\<rparr>\<rparr>
         | Inr items \<Rightarrow>
             (let a = applyChanges cfg tableName items (p_db st, p_log st)
              in \<lparr>p_db = a_db a, p_log = a_log a,
                  p_result = result\<lparr>pulled := pulled result + length items,
                                    applied := applied result + a_applied a,
                                    conflicts := conflicts result + a_conflicts a\<rparr>\<rparr>))"

definition pullTables :: "SyncConfig \<Rightarrow> string option \<Rightarrow> string list" where
  "pullTables cfg t =
     (let configured = map fst (filter (\<lambda>(n, r). has_pull r) (cfg_routes cfg))
      in case t of
           None \<Rightarrow> configured
         | Some n \<Rightarrow> if n = [] then configured else [n])"

definition pull ::
  "PullEnv \<Rightarrow> SyncConfig \<Rightarrow> string option \<Rightarrow> Db \<times> SyncEvent list \<Rightarrow> PullState" where
  "pull penv cfg t st =
     (let result = \<lparr>pull_success = True, pulled = 0, applied = 0, conflicts = 0,
                    pull_errors = []\<rparr>;
          st' = fold (pullTable penv cfg) (pullTables cfg t)
                  \<lparr>p_db = fst st, p_log = snd st, p_result = result\<rparr>
      in st'\<lparr>p_result := (p_result st')\<lparr>pull_success := (pull_errors (p_result st') = [])\<rparr>\<rparr>)"

section \<open>Sync engine (core/sync-engine.ts, core/sync-context.ts)\<close>

text \<open>
  The engine's flags, the paused-table set, the context's online status and emitted
  events, the local store and the configuration. Metrics are left out: nothing below
  reads them.
\<close>

record Engine =
  isRunning :: bool
  isPausedFlag :: bool
  isSyncingFlag :: bool
  pausedTables :: "string set"
  onlineStatus :: bool
  emitted :: "SyncEvent list"
  store :: Db
  config :: SyncConfig

record SyncResult =
  sync_success :: bool
  push_part :: PushResult
  pull_part :: PullResult

definition pauseTable :: "string \<Rightarrow> Engine \<Rightarrow> Engine" where
  "pauseTable t eng = eng\<lparr>pausedTables := insert t (pausedTables eng)\<rparr>"

definition resumeTable :: "string \<Rightarrow> Engine \<Rightarrow> Engine" where
  "resumeTable t eng = eng\<lparr>pausedTables := pausedTables eng - {t}\<rparr>"

text \<open>
  \<^verbatim>\<open>SyncEngine.push(table?)\<close> and \<^verbatim>\<open>SyncEngine.pull(table?)\<close> hand over to the two
  processors, which were built from the store, the adapter and the context.
\<close>

definition engine_push ::
  "PushEnv \<Rightarrow> int \<Rightarrow> string option \<Rightarrow> Engine \<Rightarrow> (PushResult \<times> Engine) option" where
  "engine_push env now t eng =
     (case push env (config eng) now t (store eng) of
        None \<Rightarrow> None
      | Some (db', res) \<Rightarrow> Some (res, eng\<lparr>store := db'\<rparr>))"

definition engine_pull :: "PullEnv \<Rightarrow> string option \<Rightarrow> Engine \<Rightarrow> PullResult \<times> Engine" where
  "engine_pull penv t eng =
     (let st = pull penv (config eng) t (store eng, emitted eng)
      in (p_result st, eng\<lparr>store := p_db st, emitted := p_log st\<rparr>))"

text \<open>
  \<^verbatim>\<open>sync()\<close> up to and including \<^verbatim>\<open>emit('sync-start')\<close>: the three guards, each
  throwing its own error, then the running flag and the event.
\<close>

definition sync_enter :: "Engine \<Rightarrow> string + Engine" where
  "sync_enter eng =
     (if \<not> onlineStatus eng then Inl ''Cannot sync while offline''
      else if isPausedFlag eng then Inl ''Sync is paused''
      else if isSyncingFlag eng then Inl ''Sync already in progress''
      else Inr (eng\<lparr>isSyncingFlag := True, emitted := emit EvSyncStart (emitted eng)\<rparr>))"

definition emitE :: "SyncEvent \<Rightarrow> Engine \<Rightarrow> Engine" where
  "emitE ev eng = eng\<lparr>emitted := emit ev (emitted eng)\<rparr>"

text \<open>
  The rest of \<^verbatim>\<open>sync()\<close>: push, then pull, then the result; \<^verbatim>\<open>finally\<close> clears
  the running flag. Neither processor throws, so the \<^verbatim>\<open>catch\<close> with its
  \<^verbatim>\<open>sync-error\<close> is never entered.
\<close>

definition sync_cycle ::
  "PushEnv \<Rightarrow> PullEnv \<Rightarrow> int \<Rightarrow> Engine \<Rightarrow> (SyncResult \<times> Engine) option" where
  "sync_cycle env penv now eng =
     (case engine_push env now None (emitE EvPushStart eng) of
        None \<Rightarrow> None
      | Some (pushResult, eng1) \<Rightarrow>
          (let eng2 = emitE EvPushComplete eng1;
               eng3 = (if \<not> success pushResult then emitE EvPushError eng2 else eng2);
               (pullResult, eng4) = engine_pull penv None (emitE EvPullStart eng3);
               eng5 = emitE EvPullComplete eng4;
               eng6 = (if \<not> pull_success pullResult then emitE EvPullError eng5 else eng5);
               result = \<lparr>sync_success = (success pushResult \<and> pull_success pullResult),
                         push_part = pushResult, pull_part = pullResult\<rparr>
           in Some (result, (emitE EvSyncComplete eng6)\<lparr>isSyncingFlag := False\<rparr>)))"

definition sync ::
  "PushEnv \<Rightarrow> PullEnv \<Rightarrow> int \<Rightarrow> Engine \<Rightarrow> ((string + SyncResult) \<times> Engine) option" where
  "sync env penv now eng =
     (case sync_enter eng of
        Inl err \<Rightarrow> Some (Inl err, eng)
      | Inr eng1 \<Rightarrow>
          (case sync_cycle env penv now eng1 of
             None \<Rightarrow> None
           | Some (result, eng2) \<Rightarrow> Some (Inr result, eng2)))"

section \<open>Leader election (utils/leader-election.ts)\<close>

text \<open>
  Every tab runs one \<^verbatim>\<open>LeaderElection\<close> on the same \<^verbatim>\<open>BroadcastChannel\<close>. A tab's
  code runs to completion; what interleaves are the three kinds of callbacks: a call of
  \<^verbatim>\<open>electLeader\<close>, the 100 ms timer it sets, and \<^verbatim>\<open>onmessage\<close> for a delivered
  message (plus the heartbeat tick). \<^verbatim>\<open>postMessage\<close> queues the message for every
  other tab on the channel, never for the sender; a tab's queue holds the messages on
  their way to it and is delivered in order.
\<close>

datatype MsgType = Election | ElectionResponse | Leader | Heartbeat

record Message =
  mtype :: MsgType
  sender :: string
  timestamp :: "int option"

record Tab =
  tabId :: string
  isLeaderFlag :: bool
  electionTimeout :: "int option"
  pendingTimers :: nat
  heartbeatInterval :: bool
  inbox :: "Message list"

definition newTab :: "string \<Rightarrow> Tab" where
  "newTab n = \<lparr>tabId = n, isLeaderFlag = False, electionTimeout = None, pendingTimers = 0,
               heartbeatInterval = False, inbox = []\<rparr>"

fun deliverFrom :: "nat \<Rightarrow> nat \<Rightarrow> Message \<Rightarrow> Tab list \<Rightarrow> Tab list" where
  "deliverFrom i j m [] = []"
| "deliverFrom i j m (t # ts) =
     (if j = i then t else t\<lparr>inbox := inbox t @ [m]\<rparr>) # deliverFrom i (Suc j) m ts"

definition postMessage :: "nat \<Rightarrow> Message \<Rightarrow> Tab list \<Rightarrow> Tab list" where
  "postMessage i m tabs = deliverFrom i 0 m tabs"

text \<open>\<^verbatim>\<open>timestamp < this.electionTimeout\<close>: false when either side is undefined.\<close>

definition earlier :: "int option \<Rightarrow> int option \<Rightarrow> bool" where
  "earlier a b = (case (a, b) of (Some x, Some y) \<Rightarrow> x < y | _ \<Rightarrow> False)"

text \<open>The handler \<^verbatim>\<open>channel.onmessage\<close> of tab \<open>i\<close>, for the message \<open>m\<close>.\<close>

definition onmessage :: "int \<Rightarrow> nat \<Rightarrow> Message \<Rightarrow> Tab list \<Rightarrow> Tab list" where
  "onmessage now i m tabs =
     (let me = tabs ! i
      in case mtype m of
           Election \<Rightarrow>
             postMessage i \<lparr>mtype = ElectionResponse, sender = tabId me, timestamp = Some now\<rparr>
               tabs
         | ElectionResponse \<Rightarrow>
             if earlier (timestamp m) (electionTimeout me) \<and> sender m \<noteq> tabId me
             then tabs[i := me\<lparr>isLeaderFlag := False\<rparr>] else tabs
         | Leader \<Rightarrow>
             if sender m \<noteq> tabId me then tabs[i := me\<lparr>isLeaderFlag := False\<rparr>] else tabs
         | Heartbeat \<Rightarrow>
             if sender m \<noteq> tabId me then tabs[i := me\<lparr>isLeaderFlag := False\<rparr>] else tabs)"

text \<open>
  \<^verbatim>\<open>electLeader()\<close> up to \<^verbatim>\<open>setTimeout\<close>, and the timer's callback. The callback
  tests \<^verbatim>\<open>this.electionTimeout\<close>, which the call itself has just set.
\<close>

definition electLeader :: "int \<Rightarrow> nat \<Rightarrow> Tab list \<Rightarrow> Tab list" where
  "electLeader now i tabs =
     (let me = tabs ! i
      in postMessage i \<lparr>mtype = Election, sender = tabId me, timestamp = Some now\<rparr>
           (tabs[i := me\<lparr>electionTimeout := Some now,
                         pendingTimers := Suc (pendingTimers me)\<rparr>]))"

definition electionTimer :: "nat \<Rightarrow> Tab list \<Rightarrow> Tab list" where
  "electionTimer i tabs =
     (let me = (tabs ! i)\<lparr>pendingTimers := pendingTimers (tabs ! i) - 1\<rparr>
      in if truthy (electionTimeout me)
         then postMessage i \<lparr>mtype = Leader, sender = tabId me, timestamp = None\<rparr>
                (tabs[i := me\<lparr>isLeaderFlag := True, heartbeatInterval := True\<rparr>])
         else tabs[i := me])"

definition heartbeatTick :: "nat \<Rightarrow> Tab list \<Rightarrow> Tab list" where
  "heartbeatTick i tabs =
     (let me = tabs ! i
      in if isLeaderFlag me
         then postMessage i \<lparr>mtype = Heartbeat, sender = tabId me, timestamp = None\<rparr> tabs
         else tabs)"

text \<open>
  One callback of one tab. A callback that cannot happen in the state (a tab that does
  not exist, a timer that is not set, an empty queue) leaves the state as it is.
\<close>

datatype Callback =
    CallElectLeader nat int
  | TimerFires nat
  | Delivers nat int
  | HeartbeatFires nat

fun step :: "Callback \<Rightarrow> Tab list \<Rightarrow> Tab list" where
  "step (CallElectLeader i now) tabs =
     (if i < length tabs then electLeader now i tabs else tabs)"
| "step (TimerFires i) tabs =
     (if i < length tabs \<and> 0 < pendingTimers (tabs ! i) then electionTimer i tabs else tabs)"
| "step (Delivers i now) tabs =
     (if i < length tabs
      then (case inbox (tabs ! i) of
              [] \<Rightarrow> tabs
            | m # rest \<Rightarrow> onmessage now i m (tabs[i := (tabs ! i)\<lparr>inbox := rest\<rparr>]))
      else tabs)"
| "step (HeartbeatFires i) tabs =
     (if i < length tabs \<and> heartbeatInterval (tabs ! i) then heartbeatTick i tabs else tabs)"

definition run :: "Callback list \<Rightarrow> Tab list \<Rightarrow> Tab list" where
  "run cbs tabs = fold step cbs tabs"

text \<open>The elections have settled: no timer is pending and every message is delivered.\<close>

definition settled :: "Tab list \<Rightarrow> bool" where
  "settled tabs = list_all (\<lambda>t. pendingTimers t = 0 \<and> inbox t = []) tabs"

definition leaders :: "Tab list \<Rightarrow> string list" where
  "leaders tabs = map tabId (filter isLeaderFlag tabs)"

section \<open>Auxiliary definitions\<close>

text \<open>
  The outbox entry as \<^verbatim>\<open>updateRetry\<close> leaves it after a failed push that is to
  be retried, and the test whether the transport rejects an entry.
\<close>

definition rescheduled :: "PushEnv \<Rightarrow> SyncConfig \<Rightarrow> OutboxItem \<Rightarrow> SyncError \<Rightarrow> OutboxItem" where
  "rescheduled env cfg item e =
     item\<lparr>attempt := attempt item + 1,
          lastError := Some (message e),
          nextRetryAt := Some (clock env item + getRetryDelay cfg (draw env item) (attempt item))\<rparr>"

definition transport_fails :: "PushEnv \<Rightarrow> OutboxItem \<Rightarrow> bool" where
  "transport_fails env item = (transport env item \<noteq> None)"

text \<open>Sample data for the concrete runs below.\<close>

definition row :: "int \<Rightarrow> int option \<Rightarrow> int option \<Rightarrow> string \<Rightarrow> entity" where
  "row i v u s =
     \<lparr>eid = KNum i, version = v, updatedAt = map_option DateNum u, content = s\<rparr>"

definition dated :: "string \<Rightarrow> int option \<Rightarrow> entity" where
  "dated s parsed =
     \<lparr>eid = KNum 1, version = None, updatedAt = Some (DateStr s parsed), content = []\<rparr>"

definition conflictOf :: "entity \<Rightarrow> entity \<Rightarrow> ConflictInfo" where
  "conflictOf l r =
     \<lparr>c_table = ''posts'', c_key = eid r, local = l, remote = r,
      localTimestamp = timestampOf l, remoteTimestamp = timestampOf r,
      localVersion = version l, remoteVersion = version r\<rparr>"

definition builtin :: "string \<Rightarrow> ConflictConfig" where
  "builtin p = \<lparr>policy = p, onConflict = None\<rparr>"

definition keepLocal :: "ConflictInfo \<Rightarrow> string + entity" where
  "keepLocal c = Inr ((remote c)\<lparr>content := content (local c)\<rparr>)"

definition sampleItem :: "nat \<Rightarrow> string \<Rightarrow> int \<Rightarrow> nat \<Rightarrow> OutboxItem" where
  "sampleItem i t k a =
     \<lparr>item_id = i, table = t, operation = OpUpdate, key = KNum k, obj = None, attempt = a,
      createdAt = int i, lastError = None, nextRetryAt = None\<rparr>"

definition sampleDb :: "OutboxItem list \<Rightarrow> Db" where
  "sampleDb xs =
     \<lparr>outbox = xs, outboxSeq = length xs, deadLetters = [], deadLetterSeq = 0,
      tables = (\<lambda>t. Map.empty)\<rparr>"

definition networkError :: SyncError where
  "networkError =
     \<lparr>err_type = Some ''network'', retryable = True, message = ''Network request failed'',
      as_string = ''[object Object]''\<rparr>"

definition validationError :: SyncError where
  "validationError =
     \<lparr>err_type = Some ''validation'', retryable = False, message = ''Validation failed'',
      as_string = ''[object Object]''\<rparr>"

definition sampleConfig :: "ConflictConfig option \<Rightarrow> SyncConfig" where
  "sampleConfig cc =
     \<lparr>cfg_routes = [(''posts'', \<lparr>has_push = True, has_pull = True\<rparr>)],
      push_batchSize = None, push_concurrency = None, cfg_conflicts = cc, cfg_errors = None\<rparr>"

definition sampleEnv :: "(nat \<Rightarrow> SyncError option) \<Rightarrow> PushEnv" where
  "sampleEnv f =
     \<lparr>transport = (\<lambda>item. f (item_id item)), clock = (\<lambda>item. 5000), draw = (\<lambda>item. 1 / 2)\<rparr>"

definition noResult :: PushResult where
  "noResult = \<lparr>success = True, pushed = 0, failed = 0, errors = []\<rparr>"

definition twoFailures :: "nat \<Rightarrow> SyncError option" where
  "twoFailures i = (if i = 1 then Some networkError else if i = 2 then Some validationError else None)"

definition localRows :: "string \<Rightarrow> entity list \<Rightarrow> string \<Rightarrow> pkey \<Rightarrow> entity option" where
  "localRows t es = (\<lambda>n. if n = t then map_of (map (\<lambda>e. (eid e, e)) es) else Map.empty)"

definition pendingDb :: Db where
  "pendingDb =
     (sampleDb [sampleItem 1 ''posts'' 1 0])
       \<lparr>tables := localRows ''posts'' [row 1 (Some 2) (Some 100) ''mine'']\<rparr>"

definition startState :: "Db \<Rightarrow> ApplyState" where
  "startState db = \<lparr>a_db = db, a_log = [], a_applied = 0, a_conflicts = 0\<rparr>"

definition sampleEngine :: "bool \<Rightarrow> bool \<Rightarrow> bool \<Rightarrow> Engine" where
  "sampleEngine online paused syncing =
     \<lparr>isRunning = True, isPausedFlag = paused, isSyncingFlag = syncing, pausedTables = {},
      onlineStatus = online, emitted = [],
      store = sampleDb [sampleItem 1 ''posts'' 7 0], config = sampleConfig None\<rparr>"

definition allAccepted :: PushEnv where
  "allAccepted = sampleEnv (\<lambda>i. None)"

definition oneRemoteRow :: PullEnv where
  "oneRemoteRow = \<lparr>fetch = (\<lambda>t. Inr [row 9 None (Some 200) ''theirs''])\<rparr>"

text \<open>
  Two tabs call \<^verbatim>\<open>electLeader\<close> in the same millisecond. The election messages
  and the responses are delivered within the 100 ms window; both timers fire before
  either tab's \<^verbatim>\<open>leader\<close> announcement is delivered to the other.
\<close>

definition twoTabs :: "Tab list" where
  "twoTabs = [newTab ''tab-a'', newTab ''tab-b'']"

definition raceSchedule :: "Callback list" where
  "raceSchedule =
     [CallElectLeader 0 1000, CallElectLeader 1 1000,
      Delivers 1 1001, Delivers 0 1001, Delivers 0 1002, Delivers 1 1002,
      TimerFires 0, TimerFires 1,
      Delivers 0 1101, Delivers 1 1101]"

section \<open>Properties of the backoff\<close>

lemma jitter_upper:
  fixes d r :: rat
  assumes "0 \<le> d" "r \<le> 1"
  shows "d + d * (2 / 10) * (r - 1 / 2) \<le> (11 / 10) * d"
proof -
  have "d * r \<le> d * 1" using assms by (intro mult_left_mono) auto
  then show ?thesis by (simp add: algebra_simps)
qed

lemma jitter_lower:
  fixes d r :: rat
  assumes "0 \<le> d" "0 \<le> r"
  shows "(9 / 10) * d \<le> d + d * (2 / 10) * (r - 1 / 2)"
proof -
  have "0 \<le> d * r" using assms by simp
  then show ?thesis by (simp add: algebra_simps)
qed

text \<open>
  Whatever the attempt and the draw in \<open>[0, 1]\<close>, the delay stays within 10 percent of
  the capped exponential (the floor can take off less than one millisecond more).
\<close>

lemma calculateBackoff_range:
  assumes "0 \<le> r" "r \<le> 1" "0 \<le> maxDelay"
  shows "(9 / 10) * min (1000 * 2 ^ n) maxDelay - 1 < of_int (calculateBackoff n maxDelay r)"
    and "of_int (calculateBackoff n maxDelay r) \<le> (11 / 10) * min (1000 * 2 ^ n) maxDelay"
proof -
  let ?d = "min (1000 * 2 ^ n) maxDelay :: rat"
  let ?x = "?d + ?d * (2 / 10) * (r - 1 / 2)"
  have d0: "0 \<le> ?d" using assms(3) by simp
  have fl: "calculateBackoff n maxDelay r = \<lfloor>?x\<rfloor>"
    by (simp add: calculateBackoff_def Let_def)
  have "?x - 1 < of_int \<lfloor>?x\<rfloor>" by linarith
  moreover have "(9 / 10) * ?d \<le> ?x" using jitter_lower [OF d0 assms(1)] .
  ultimately show "(9 / 10) * ?d - 1 < of_int (calculateBackoff n maxDelay r)"
    unfolding fl by linarith
  have "of_int \<lfloor>?x\<rfloor> \<le> ?x" by linarith
  moreover have "?x \<le> (11 / 10) * ?d" using jitter_upper [OF d0 assms(2)] .
  ultimately show "of_int (calculateBackoff n maxDelay r) \<le> (11 / 10) * ?d"
    unfolding fl by linarith
qed

text \<open>
  C3. The claim gives the delay as \<open>min(1000 * 2^n, 60000) * (1 + 0.2 * (2r - 1))\<close>, a band
  of 20 percent either side whose ends are reached. The code multiplies by
  \<open>0.2 * (r - 0.5)\<close>: at attempt 0 the smallest draw \<open>r = 0\<close> gives 900 (the claim: 800)
  and the largest \<open>r = 1\<close> gives 1100 (the claim: 1200), so the band is 10 percent either
  side and the ends of the claimed band are never reached.
\<close>

theorem calculateBackoff_band_is_ten_percent:
  "calculateBackoff 0 defaultMaxDelay 0 = 900 \<and> calculateBackoff 0 defaultMaxDelay 1 = 1100"
  by (simp add: calculateBackoff_def)

section \<open>Properties of the outbox and the push processor\<close>

lemma same_id_same_item:
  "distinct (map item_id xs) \<Longrightarrow> x \<in> set xs \<Longrightarrow> y \<in> set xs \<Longrightarrow>
   item_id x = item_id y \<Longrightarrow> x = y"
  by (auto simp: distinct_map dest: inj_onD)

lemma find_by_id:
  "distinct (map item_id xs) \<Longrightarrow> item \<in> set xs \<Longrightarrow>
   find (\<lambda>x. item_id x = item_id item) xs = Some item"
  by (induction xs) (auto simp: image_iff)

lemma updateRetry_stored:
  assumes "distinct (map item_id (outbox db))" "item \<in> set (outbox db)"
  shows "outbox (outbox_updateRetry (item_id item) err next db) =
           map (\<lambda>x. if x = item
                     then item\<lparr>attempt := attempt item + 1, lastError := Some err,
                               nextRetryAt := Some next\<rparr>
                     else x) (outbox db)"
proof -
  have "find (\<lambda>x. item_id x = item_id item) (outbox db) = Some item"
    using find_by_id [OF assms] .
  moreover have "\<And>x. x \<in> set (outbox db) \<Longrightarrow> (item_id x = item_id item) = (x = item)"
    using same_id_same_item [OF assms(1) _ assms(2)] by auto
  ultimately show ?thesis
    by (auto simp: outbox_updateRetry_def)
qed

lemma remove_stored:
  assumes "distinct (map item_id (outbox db))" "item \<in> set (outbox db)"
  shows "outbox (outbox_remove (item_id item) db) = filter (\<lambda>x. x \<noteq> item) (outbox db)"
proof -
  have "\<And>x. x \<in> set (outbox db) \<Longrightarrow> (item_id x \<noteq> item_id item) = (x \<noteq> item)"
    using same_id_same_item [OF assms(1) _ assms(2)] by auto
  then show ?thesis
    by (auto simp: outbox_remove_def intro: filter_cong)
qed

lemma remove_no_id: "i \<notin> item_id ` set (outbox (outbox_remove i db))"
  by (auto simp: outbox_remove_def)

lemma pushItem_dead:
  assumes "transport env item = Some e"
    and "getMaxRetries cfg (err_type e) \<le> attempt item \<or> \<not> retryable e"
  shows "fst (pushItem env cfg item (db, res)) =
           outbox_remove (item_id item)
             (db\<lparr>deadLetters := deadLetters db @
                    [deadLetterOf (Suc (deadLetterSeq db)) (clock env item) item e],
                 deadLetterSeq := Suc (deadLetterSeq db)\<rparr>)"
  using assms by (simp add: pushItem_def moveToDeadLetters_def Let_def)

lemma pushItem_retry:
  assumes "transport env item = Some e"
    and "\<not> (getMaxRetries cfg (err_type e) \<le> attempt item \<or> \<not> retryable e)"
  shows "fst (pushItem env cfg item (db, res)) =
           outbox_updateRetry (item_id item) (message e)
             (clock env item + getRetryDelay cfg (draw env item) (attempt item)) db"
  using assms by (simp add: pushItem_def Let_def)

lemma pushItem_retry_outbox:
  assumes ids: "distinct (map item_id (outbox db))" and stored: "item \<in> set (outbox db)"
    and fails: "transport env item = Some e"
    and retry: "\<not> (getMaxRetries cfg (err_type e) \<le> attempt item \<or> \<not> retryable e)"
  shows "outbox (fst (pushItem env cfg item (db, res))) =
           map (\<lambda>x. if x = item then rescheduled env cfg item e else x) (outbox db)"
  unfolding pushItem_retry [OF fails retry] rescheduled_def
  by (rule updateRetry_stored [OF ids stored])

lemma pushItem_retry_member:
  assumes ids: "distinct (map item_id (outbox db))" and stored: "item \<in> set (outbox db)"
    and fails: "transport env item = Some e"
    and retry: "\<not> (getMaxRetries cfg (err_type e) \<le> attempt item \<or> \<not> retryable e)"
  shows "rescheduled env cfg item e \<in> set (outbox (fst (pushItem env cfg item (db, res))))"
  unfolding pushItem_retry_outbox [OF assms] using stored by (auto simp: image_iff)

lemma batch_loop_fold:
  "batch_loop env cfg c batch promises st = fold (pushItem env cfg) (promises @ batch) st"
proof (induction batch arbitrary: promises st)
  case Nil
  show ?case by simp
next
  case (Cons item batch)
  let ?p = "promises @ [item]"
  show ?case
  proof (cases "c \<le> length ?p")
    case True
    have "batch_loop env cfg c (item # batch) promises st =
            batch_loop env cfg c batch (drop c ?p) (fold (pushItem env cfg) (take c ?p) st)"
      using True by (simp add: Let_def)
    also have "\<dots> = fold (pushItem env cfg) (drop c ?p @ batch)
                        (fold (pushItem env cfg) (take c ?p) st)"
      by (rule Cons.IH)
    also have "\<dots> = fold (pushItem env cfg) (take c ?p @ drop c ?p @ batch) st"
      by (simp only: fold_append comp_apply)
    also have "take c ?p @ drop c ?p @ batch = promises @ item # batch"
      by (metis append.assoc append_Cons append_Nil append_take_drop_id)
    finally show ?thesis .
  next
    case False
    then show ?thesis using Cons.IH [of ?p st] by (simp add: Let_def)
  qed
qed

lemma push_loop_fold:
  "0 < bs \<Longrightarrow>
   push_loop env cfg bs c items i st = Some (fold (pushItem env cfg) (drop i items) st)"
proof (induction env cfg bs c items i st rule: push_loop.induct)
  case (1 env cfg bs c items i st)
  show ?case
  proof (cases "i < length items")
    case True
    have split: "drop i items = take bs (drop i items) @ drop (i + bs) items"
      by (metis add.commute append_take_drop_id drop_drop)
    have "push_loop env cfg bs c items i st =
            push_loop env cfg bs c items (i + bs)
              (fold (pushItem env cfg) (take bs (drop i items)) st)"
      using True "1.prems" by (subst push_loop.simps) (simp add: batch_loop_fold)
    also have "\<dots> = Some (fold (pushItem env cfg) (drop (i + bs) items)
                          (fold (pushItem env cfg) (take bs (drop i items)) st))"
      using "1.IH" True "1.prems" by (simp add: batch_loop_fold)
    also have "\<dots> = Some (fold (pushItem env cfg) (drop i items) st)"
      by (subst (2) split) (simp only: fold_append comp_apply)
    finally show ?thesis .
  next
    case False
    then show ?thesis using "1.prems" by (subst push_loop.simps) simp
  qed
qed

lemma or_default_pos: "0 < d \<Longrightarrow> 0 < or_default v d"
  by (simp add: or_default_def split: option.splits)

lemma pushItem_counts:
  "failed (snd (pushItem env cfg x (db, res))) =
     failed res + (if transport_fails env x then 1 else 0)"
  "pushed (snd (pushItem env cfg x (db, res))) =
     pushed res + (if transport_fails env x then 0 else 1)"
  by (auto simp: pushItem_def transport_fails_def Let_def split: option.splits)

lemma fold_pushItem_counts:
  "failed (snd (fold (pushItem env cfg) xs st)) =
     failed (snd st) + length (filter (transport_fails env) xs) \<and>
   pushed (snd (fold (pushItem env cfg) xs st)) =
     pushed (snd st) + length (filter (\<lambda>x. \<not> transport_fails env x) xs)"
proof (induction xs arbitrary: st)
  case Nil
  show ?case by simp
next
  case (Cons x xs)
  obtain db res where st: "st = (db, res)" by (cases st)
  show ?case
    using Cons.IH [of "pushItem env cfg x (db, res)"]
    by (simp add: st pushItem_counts)
qed

lemma remove_ids:
  "distinct (map item_id (outbox db)) \<Longrightarrow>
   distinct (map item_id (outbox (outbox_remove i db)))"
  by (simp add: outbox_remove_def distinct_map_filter)

lemma updateRetry_ids:
  "map item_id (outbox (outbox_updateRetry i err next db)) = map item_id (outbox db)"
  by (cases "find (\<lambda>item. item_id item = i) (outbox db)")
     (auto simp: outbox_updateRetry_def)

lemma pushItem_keeps_ids:
  assumes "distinct (map item_id (outbox (fst st)))"
  shows "distinct (map item_id (outbox (fst (pushItem env cfg x st))))"
proof -
  obtain db res where st: "st = (db, res)" by (cases st)
  have d: "distinct (map item_id (outbox db))" using assms st by simp
  show ?thesis
  proof (cases "transport env x")
    case None
    then show ?thesis using remove_ids [OF d] by (simp add: st pushItem_def)
  next
    case (Some e)
    show ?thesis
    proof (cases "getMaxRetries cfg (err_type e) \<le> attempt x \<or> \<not> retryable e")
      case True
      then show ?thesis
        using Some d
        by (simp add: st pushItem_def Let_def moveToDeadLetters_def outbox_remove_def
              distinct_map_filter)
    next
      case False
      then show ?thesis
        using Some d by (simp add: st pushItem_def Let_def updateRetry_ids)
    qed
  qed
qed

lemma fold_pushItem_keeps_ids:
  "distinct (map item_id (outbox (fst st))) \<Longrightarrow>
   distinct (map item_id (outbox (fst (fold (pushItem env cfg) xs st))))"
proof (induction xs arbitrary: st)
  case Nil
  then show ?case by simp
next
  case (Cons x xs)
  show ?case
    using Cons.IH [OF pushItem_keeps_ids [OF Cons.prems, of env cfg x]] by simp
qed

text \<open>An entry is touched only by the push of an item with its id.\<close>

lemma remove_other:
  "item_id j \<noteq> i \<Longrightarrow> j \<in> set (outbox (outbox_remove i db)) \<longleftrightarrow> j \<in> set (outbox db)"
  by (auto simp: outbox_remove_def)

lemma updateRetry_other:
  "item_id j \<noteq> i \<Longrightarrow>
   j \<in> set (outbox (outbox_updateRetry i err next db)) \<longleftrightarrow> j \<in> set (outbox db)"
  by (cases "find (\<lambda>item. item_id item = i) (outbox db)")
     (auto simp: outbox_updateRetry_def image_iff)

lemma pushItem_other:
  assumes "item_id j \<noteq> item_id x"
  shows "j \<in> set (outbox (fst (pushItem env cfg x st))) \<longleftrightarrow> j \<in> set (outbox (fst st))"
proof -
  obtain db res where st: "st = (db, res)" by (cases st)
  show ?thesis
  proof (cases "transport env x")
    case None
    then show ?thesis using remove_other [OF assms] by (simp add: st pushItem_def)
  next
    case (Some e)
    show ?thesis
    proof (cases "getMaxRetries cfg (err_type e) \<le> attempt x \<or> \<not> retryable e")
      case True
      then show ?thesis
        using Some assms
        by (auto simp: st pushItem_def Let_def moveToDeadLetters_def outbox_remove_def)
    next
      case False
      then show ?thesis
        using Some updateRetry_other [OF assms] by (simp add: st pushItem_def Let_def)
    qed
  qed
qed

lemma fold_pushItem_other:
  "\<forall>x \<in> set xs. item_id x \<noteq> item_id j \<Longrightarrow>
   j \<in> set (outbox (fst (fold (pushItem env cfg) xs st))) \<longleftrightarrow> j \<in> set (outbox (fst st))"
proof (induction xs arbitrary: st)
  case Nil
  show ?case by simp
next
  case (Cons x xs)
  have "item_id j \<noteq> item_id x" using Cons.prems by auto
  then show ?case using Cons.IH [of "pushItem env cfg x st"] Cons.prems pushItem_other
    by simp
qed

lemma fold_pushItem_rescheduled:
  assumes ids: "distinct (map item_id (outbox (fst st)))"
    and sel: "distinct (map item_id xs)" "set xs \<subseteq> set (outbox (fst st))"
    and x: "x \<in> set xs" "transport env x = Some e" "retryable e"
           "attempt x < getMaxRetries cfg (err_type e)"
  shows "rescheduled env cfg x e \<in> set (outbox (fst (fold (pushItem env cfg) xs st)))"
proof -
  obtain pre post where xs: "xs = pre @ x # post"
    using x(1) by (auto dest: split_list)
  have pre: "\<forall>y \<in> set pre. item_id y \<noteq> item_id x"
    and post: "\<forall>y \<in> set post. item_id y \<noteq> item_id x"
    using sel(1) unfolding xs by (auto simp: image_iff)
  let ?st1 = "fold (pushItem env cfg) pre st"
  let ?st2 = "pushItem env cfg x ?st1"
  have ids1: "distinct (map item_id (outbox (fst ?st1)))"
    using fold_pushItem_keeps_ids [OF ids] .
  have "x \<in> set (outbox (fst st))" using sel(2) x(1) by auto
  then have x1: "x \<in> set (outbox (fst ?st1))"
    using fold_pushItem_other [OF pre] by simp
  have retry: "\<not> (getMaxRetries cfg (err_type e) \<le> attempt x \<or> \<not> retryable e)"
    using x(3,4) by simp
  have "rescheduled env cfg x e \<in> set (outbox (fst ?st2))"
    using pushItem_retry_member [OF ids1 x1 x(2) retry, of "snd ?st1"] by simp
  moreover have "\<forall>y \<in> set post. item_id y \<noteq> item_id (rescheduled env cfg x e)"
    using post by (simp add: rescheduled_def)
  ultimately have "rescheduled env cfg x e \<in> set (outbox (fst (fold (pushItem env cfg) post ?st2)))"
    using fold_pushItem_other by blast
  then show ?thesis by (simp add: xs)
qed

lemma push_total:
  "\<exists>db' res. push env cfg now t db = Some (db', res)"
  by (simp add: push_def Let_def push_loop_fold or_default_pos case_prod_beta)

lemma push_eq:
  "push env cfg now t db =
     (let st = fold (pushItem env cfg) (filteredItems now t db)
                 (db, \<lparr>success = True, pushed = 0, failed = 0, errors = []\<rparr>)
      in Some (fst st, (snd st)\<lparr>success := (failed (snd st) = 0)\<rparr>))"
  by (simp add: push_def Let_def push_loop_fold or_default_pos case_prod_beta)

lemma filteredItems_sub:
  "set (filteredItems now t db) \<subseteq> set (outbox db)"
  by (auto simp: filteredItems_def outbox_getPending_def Let_def split: option.splits)

lemma filteredItems_ids:
  "distinct (map item_id (outbox db)) \<Longrightarrow> distinct (map item_id (filteredItems now t db))"
  by (auto simp: filteredItems_def outbox_getPending_def Let_def distinct_map_filter
      split: option.splits)

text \<open>
  C1. An outbox entry is stored under its id and its push fails with the error \<open>e\<close>.
  If its attempt count has reached \<^verbatim>\<open>maxRetries\<close> or \<open>e\<close> is not retryable, a dead
  letter is appended that keeps the entry's table, operation, key, payload and attempt
  count, and the entry is gone from the outbox, which is otherwise unchanged. Otherwise
  the dead letters stay as they are and the entry stays in its place in the outbox with
  the attempt count one higher, the error's message as \<^verbatim>\<open>lastError\<close>, and
  \<^verbatim>\<open>nextRetryAt\<close> the current time plus the retry delay for the old attempt count.
\<close>

theorem pushItem_failure:
  assumes ids: "distinct (map item_id (outbox db))" and stored: "item \<in> set (outbox db)"
    and fails: "transport env item = Some e"
    and run: "pushItem env cfg item (db, res) = (db', res')"
  shows "(getMaxRetries cfg (err_type e) \<le> attempt item \<or> \<not> retryable e \<longrightarrow>
            deadLetters db' =
              deadLetters db @ [deadLetterOf (Suc (deadLetterSeq db)) (clock env item) item e] \<and>
            dl_table (last (deadLetters db')) = table item \<and>
            dl_operation (last (deadLetters db')) = operation item \<and>
            dl_key (last (deadLetters db')) = key item \<and>
            dl_obj (last (deadLetters db')) = obj item \<and>
            dl_originalAttempts (last (deadLetters db')) = attempt item \<and>
            outbox db' = filter (\<lambda>x. x \<noteq> item) (outbox db) \<and>
            item_id item \<notin> item_id ` set (outbox db'))
       \<and> (\<not> (getMaxRetries cfg (err_type e) \<le> attempt item \<or> \<not> retryable e) \<longrightarrow>
            deadLetters db' = deadLetters db \<and>
            outbox db' =
              map (\<lambda>x. if x = item
                        then item\<lparr>attempt := attempt item + 1,
                                  lastError := Some (message e),
                                  nextRetryAt := Some (clock env item +
                                    getRetryDelay cfg (draw env item) (attempt item))\<rparr>
                        else x) (outbox db) \<and>
            item\<lparr>attempt := attempt item + 1,
                 lastError := Some (message e),
                 nextRetryAt := Some (clock env item +
                   getRetryDelay cfg (draw env item) (attempt item))\<rparr> \<in> set (outbox db'))"
proof (cases "getMaxRetries cfg (err_type e) \<le> attempt item \<or> \<not> retryable e")
  case True
  let ?d = "deadLetterOf (Suc (deadLetterSeq db)) (clock env item) item e"
  let ?db1 = "db\<lparr>deadLetters := deadLetters db @ [?d],
               deadLetterSeq := Suc (deadLetterSeq db)\<rparr>"
  have db': "db' = outbox_remove (item_id item) ?db1"
    using pushItem_dead [OF fails True, of db res] run by simp
  have dl: "deadLetters db' = deadLetters db @ [?d]"
    by (simp add: db' outbox_remove_def)
  have "outbox db' = filter (\<lambda>x. x \<noteq> item) (outbox db)"
    using remove_stored [of ?db1 item] ids stored by (simp add: db')
  moreover have "item_id item \<notin> item_id ` set (outbox db')"
    unfolding db' by (rule remove_no_id)
  ultimately show ?thesis using True dl by (simp add: deadLetterOf_def)
next
  case False
  have db': "db' = fst (pushItem env cfg item (db, res))" using run by simp
  have ob: "outbox db' =
          map (\<lambda>x. if x = item then rescheduled env cfg item e else x) (outbox db)"
    unfolding db' by (rule pushItem_retry_outbox [OF ids stored fails False])
  have mem: "rescheduled env cfg item e \<in> set (outbox db')"
    unfolding db' by (rule pushItem_retry_member [OF ids stored fails False])
  have "find (\<lambda>x. item_id x = item_id item) (outbox db) = Some item"
    using find_by_id [OF ids stored] .
  then have "deadLetters db' = deadLetters db"
    unfolding db' pushItem_retry [OF fails False] by (simp add: outbox_updateRetry_def)
  then show ?thesis
    using False ob mem unfolding rescheduled_def by blast
qed

text \<open>
  Two entries, attempt 0, default configuration (5 retries, backoff drawn at 1/2, clock
  5000): the network error reschedules entry 1 for 6000, the validation error moves
  entry 2 to the dead letters.
\<close>

theorem pushItem_failure_witness:
  "outbox (fst (pushItem (sampleEnv twoFailures) (sampleConfig None) (sampleItem 1 ''posts'' 7 0)
      (sampleDb [sampleItem 1 ''posts'' 7 0, sampleItem 2 ''posts'' 8 0], noResult))) =
     [(sampleItem 1 ''posts'' 7 0)\<lparr>attempt := 1, lastError := Some ''Network request failed'',
         nextRetryAt := Some 6000\<rparr>,
      sampleItem 2 ''posts'' 8 0]
   \<and> outbox (fst (pushItem (sampleEnv twoFailures) (sampleConfig None) (sampleItem 2 ''posts'' 8 0)
      (sampleDb [sampleItem 1 ''posts'' 7 0, sampleItem 2 ''posts'' 8 0], noResult))) =
     [sampleItem 1 ''posts'' 7 0]
   \<and> map dl_key (deadLetters (fst (pushItem (sampleEnv twoFailures) (sampleConfig None)
      (sampleItem 2 ''posts'' 8 0)
      (sampleDb [sampleItem 1 ''posts'' 7 0, sampleItem 2 ''posts'' 8 0], noResult)))) = [KNum 8]"
  using
    pushItem_failure [of "sampleDb [sampleItem 1 ''posts'' 7 0, sampleItem 2 ''posts'' 8 0]"
      "sampleItem 1 ''posts'' 7 0" "sampleEnv twoFailures" networkError "sampleConfig None" noResult
      "fst (pushItem (sampleEnv twoFailures) (sampleConfig None) (sampleItem 1 ''posts'' 7 0)
        (sampleDb [sampleItem 1 ''posts'' 7 0, sampleItem 2 ''posts'' 8 0], noResult))"
      "snd (pushItem (sampleEnv twoFailures) (sampleConfig None) (sampleItem 1 ''posts'' 7 0)
        (sampleDb [sampleItem 1 ''posts'' 7 0, sampleItem 2 ''posts'' 8 0], noResult))"]
    pushItem_failure [of "sampleDb [sampleItem 1 ''posts'' 7 0, sampleItem 2 ''posts'' 8 0]"
      "sampleItem 2 ''posts'' 8 0" "sampleEnv twoFailures" validationError "sampleConfig None" noResult
      "fst (pushItem (sampleEnv twoFailures) (sampleConfig None) (sampleItem 2 ''posts'' 8 0)
        (sampleDb [sampleItem 1 ''posts'' 7 0, sampleItem 2 ''posts'' 8 0], noResult))"
      "snd (pushItem (sampleEnv twoFailures) (sampleConfig None) (sampleItem 2 ''posts'' 8 0)
        (sampleDb [sampleItem 1 ''posts'' 7 0, sampleItem 2 ''posts'' 8 0], noResult))"]
  by (simp add: sampleItem_def sampleDb_def networkError_def validationError_def
        sampleConfig_def sampleEnv_def noResult_def twoFailures_def getMaxRetries_def
        getRetryDelay_def calculateBackoff_def deadLetterOf_def)

text \<open>
  C9. Every \<^verbatim>\<open>push\<close> on an outbox with one entry per id returns, and its result
  has \<^verbatim>\<open>success\<close> exactly when \<^verbatim>\<open>failed\<close> is 0, which is exactly when the
  transport rejected none of the selected entries; \<^verbatim>\<open>failed\<close> counts every
  selected entry the transport rejected, rescheduled or not; and every entry that was
  rejected with a retryable error below the retry limit is in the outbox afterwards,
  with its retry recorded.
\<close>

theorem push_result:
  assumes ids: "distinct (map item_id (outbox db))"
  shows "\<exists>db' res. push env cfg now t db = Some (db', res)
     \<and> success res = (failed res = 0)
     \<and> failed res = length (filter (\<lambda>x. transport env x \<noteq> None) (filteredItems now t db))
     \<and> success res = (\<forall>x \<in> set (filteredItems now t db). transport env x = None)
     \<and> (\<forall>x e. x \<in> set (filteredItems now t db) \<and> transport env x = Some e \<and>
               retryable e \<and> attempt x < getMaxRetries cfg (err_type e) \<longrightarrow>
               x\<lparr>attempt := attempt x + 1, lastError := Some (message e),
                 nextRetryAt := Some (clock env x +
                   getRetryDelay cfg (draw env x) (attempt x))\<rparr> \<in> set (outbox db'))"
proof -
  let ?xs = "filteredItems now t db"
  let ?init = "(db, \<lparr>success = True, pushed = 0, failed = 0, errors = []\<rparr>)"
  let ?st = "fold (pushItem env cfg) ?xs ?init"
  let ?res = "(snd ?st)\<lparr>success := (failed (snd ?st) = 0)\<rparr>"
  have run: "push env cfg now t db = Some (fst ?st, ?res)"
    by (simp add: push_eq Let_def)
  have cnt: "failed ?res = length (filter (\<lambda>x. transport env x \<noteq> None) ?xs)"
    using fold_pushItem_counts [of env cfg ?xs ?init]
    by (simp add: transport_fails_def [abs_def])
  have succ: "success ?res = (failed ?res = 0)" by simp
  have none: "success ?res = (\<forall>x \<in> set ?xs. transport env x = None)"
    unfolding succ cnt by (simp add: filter_empty_conv)
  have keep: "x\<lparr>attempt := attempt x + 1, lastError := Some (message e),
                 nextRetryAt := Some (clock env x +
                   getRetryDelay cfg (draw env x) (attempt x))\<rparr> \<in> set (outbox (fst ?st))"
    if "x \<in> set ?xs" "transport env x = Some e" "retryable e"
       "attempt x < getMaxRetries cfg (err_type e)" for x e
  proof -
    have "distinct (map item_id (outbox (fst ?init)))" using ids by simp
    moreover have "set ?xs \<subseteq> set (outbox (fst ?init))"
      using filteredItems_sub [of now t db] by simp
    ultimately have "rescheduled env cfg x e \<in> set (outbox (fst ?st))"
      using that by (rule fold_pushItem_rescheduled [OF _ filteredItems_ids [OF ids]])
    then show ?thesis unfolding rescheduled_def .
  qed
  have all: "\<forall>x e. x \<in> set ?xs \<and> transport env x = Some e \<and>
               retryable e \<and> attempt x < getMaxRetries cfg (err_type e) \<longrightarrow>
               x\<lparr>attempt := attempt x + 1, lastError := Some (message e),
                 nextRetryAt := Some (clock env x +
                   getRetryDelay cfg (draw env x) (attempt x))\<rparr> \<in> set (outbox (fst ?st))"
    by (intro allI impI, elim conjE, rule keep)
  show ?thesis
    apply (rule exI [of _ "fst ?st"])
    apply (rule exI [of _ ?res])
    apply (rule conjI, rule run)
    apply (rule conjI, rule succ)
    apply (rule conjI, rule cnt)
    apply (rule conjI, rule none)
    apply (rule all)
    done
qed

text \<open>
  Three pending entries: the first is rejected with a retryable error, the second with
  a validation error, the third is accepted.
\<close>

theorem push_result_witness:
  "\<exists>db' res.
     push (sampleEnv twoFailures) (sampleConfig None) 100 None
       (sampleDb [sampleItem 1 ''posts'' 7 0, sampleItem 2 ''posts'' 8 0,
                  sampleItem 3 ''posts'' 9 0]) = Some (db', res)
     \<and> \<not> success res \<and> failed res = 2
     \<and> (sampleItem 1 ''posts'' 7 0)\<lparr>attempt := 1, lastError := Some ''Network request failed'',
           nextRetryAt := Some 6000\<rparr> \<in> set (outbox db')"
proof -
  let ?db = "sampleDb [sampleItem 1 ''posts'' 7 0, sampleItem 2 ''posts'' 8 0,
                  sampleItem 3 ''posts'' 9 0]"
  let ?env = "sampleEnv twoFailures"
  let ?cfg = "sampleConfig None"
  have d: "distinct (map item_id (outbox ?db))" by (simp add: sampleDb_def sampleItem_def)
  have sel: "filteredItems 100 None ?db =
      [sampleItem 1 ''posts'' 7 0, sampleItem 2 ''posts'' 8 0, sampleItem 3 ''posts'' 9 0]"
    by (simp add: filteredItems_def outbox_getPending_def is_pending_def sampleDb_def
          sampleItem_def)
  obtain db' res where r: "push ?env ?cfg 100 None ?db = Some (db', res)"
    and s: "success res = (failed res = 0)"
    and f: "failed res = length (filter (\<lambda>x. transport ?env x \<noteq> None) (filteredItems 100 None ?db))"
    and k: "\<forall>x e. x \<in> set (filteredItems 100 None ?db) \<and> transport ?env x = Some e \<and>
               retryable e \<and> attempt x < getMaxRetries ?cfg (err_type e) \<longrightarrow>
               x\<lparr>attempt := attempt x + 1, lastError := Some (message e),
                 nextRetryAt := Some (clock ?env x +
                   getRetryDelay ?cfg (draw ?env x) (attempt x))\<rparr> \<in> set (outbox db')"
    using push_result [OF d, of ?env ?cfg 100 None]
    by (elim exE conjE) (rule that, assumption+)
  have f2: "failed res = 2" unfolding f sel
    by (simp add: sampleEnv_def twoFailures_def sampleItem_def networkError_def
          validationError_def)
  have "(sampleItem 1 ''posts'' 7 0)\<lparr>attempt := 1, lastError := Some ''Network request failed'',
           nextRetryAt := Some 6000\<rparr> \<in> set (outbox db')"
    using k [rule_format, of "sampleItem 1 ''posts'' 7 0" networkError] unfolding sel
    by (simp add: sampleEnv_def twoFailures_def sampleItem_def networkError_def
          sampleConfig_def getMaxRetries_def getRetryDelay_def calculateBackoff_def)
  then show ?thesis using r s f2 by simp
qed

section \<open>Properties of the conflict resolver\<close>

lemma getStrategy_simps:
  "getStrategy ''server-wins'' = serverWins"
  "getStrategy ''client-wins'' = clientWins"
  "getStrategy ''lww'' = lastWriteWins"
  by (simp_all add: getStrategy_def)

lemma resolve_builtin:
  "policy cc \<noteq> ''custom'' \<or> onConflict cc = None \<Longrightarrow>
   fst (resolve cc c evs) = Inr (getStrategy (policy cc) c)"
  by (auto simp: resolve_def Let_def split: option.splits)

text \<open>
  C6, as the code has it. No local row: no conflict. Both rows with a version: conflict
  exactly when the versions differ. Otherwise, both rows with a truthy
  \<^verbatim>\<open>updatedAt\<close> (present, not 0, not the empty string): conflict exactly when the
  times \<^verbatim>\<open>Date\<close> reads from the two differ as numbers, so for two valid dates exactly
  when they are different instants, and always when one is not a date. In every
  remaining case: conflict.
\<close>

theorem detectConflict_cases:
  "detectConflict None r = False
   \<and> (version l \<noteq> None \<and> version r \<noteq> None \<longrightarrow>
        detectConflict (Some l) r = (version l \<noteq> version r))
   \<and> (\<not> (version l \<noteq> None \<and> version r \<noteq> None) \<and>
        truthyDate (updatedAt l) \<and> truthyDate (updatedAt r) \<longrightarrow>
        detectConflict (Some l) r = strictNeq (getTime (updatedAt l)) (getTime (updatedAt r)))
   \<and> (\<not> (version l \<noteq> None \<and> version r \<noteq> None) \<and>
        truthyDate (updatedAt l) \<and> truthyDate (updatedAt r) \<and>
        getTime (updatedAt l) = Some a \<and> getTime (updatedAt r) = Some b \<longrightarrow>
        detectConflict (Some l) r = (a \<noteq> b))
   \<and> (\<not> (version l \<noteq> None \<and> version r \<noteq> None) \<and>
        \<not> (truthyDate (updatedAt l) \<and> truthyDate (updatedAt r)) \<longrightarrow>
        detectConflict (Some l) r = True)"
  by (auto simp: detectConflict_def strictNeq_def Let_def)

text \<open>
  Versions 1 and 2, then 2 and 2; without a local version, timestamps 100 and 200, then
  200 and 200; the same instant written as two different date strings; a local row
  without a timestamp.
\<close>

theorem detectConflict_cases_witness:
  "detectConflict None (row 1 (Some 2) (Some 200) ''r'') = False
   \<and> detectConflict (Some (row 1 (Some 1) (Some 100) ''l'')) (row 1 (Some 2) (Some 200) ''r'') = True
   \<and> detectConflict (Some (row 1 (Some 2) (Some 100) ''l'')) (row 1 (Some 2) (Some 200) ''r'') = False
   \<and> detectConflict (Some (row 1 None (Some 100) ''l'')) (row 1 (Some 2) (Some 200) ''r'') = True
   \<and> detectConflict (Some (row 1 None (Some 200) ''l'')) (row 1 (Some 2) (Some 200) ''r'') = False
   \<and> detectConflict (Some (dated ''2024-01-01T00:00:00Z'' (Some 1704067200000)))
        (dated ''2024-01-01T00:00:00.000Z'' (Some 1704067200000)) = False
   \<and> detectConflict (Some (row 1 None None ''l'')) (row 1 (Some 2) (Some 200) ''r'') = True"
  using detectConflict_cases [of "row 1 (Some 2) (Some 200) ''r''" "row 1 (Some 1) (Some 100) ''l''" 100 200]
    detectConflict_cases [of "row 1 (Some 2) (Some 200) ''r''" "row 1 (Some 2) (Some 100) ''l''" 100 200]
    detectConflict_cases [of "row 1 (Some 2) (Some 200) ''r''" "row 1 None (Some 100) ''l''" 100 200]
    detectConflict_cases [of "row 1 (Some 2) (Some 200) ''r''" "row 1 None (Some 200) ''l''" 200 200]
    detectConflict_cases [of "dated ''2024-01-01T00:00:00.000Z'' (Some 1704067200000)"
      "dated ''2024-01-01T00:00:00Z'' (Some 1704067200000)" 1704067200000 1704067200000]
    detectConflict_cases [of "row 1 (Some 2) (Some 200) ''r''" "row 1 None None ''l''" 0 200]
  by (simp add: row_def dated_def truthyDate_def getTime_def strictNeq_def)

text \<open>
  The claim as stated asks only that both rows carry an \<^verbatim>\<open>updatedAt\<close>. Two rows
  without versions whose \<^verbatim>\<open>updatedAt\<close> is 0 carry equal timestamps, yet the code
  tests \<^verbatim>\<open>local.updatedAt && remote.updatedAt\<close>, finds 0 falsy and reports a
  conflict.
\<close>

theorem detectConflict_epoch_counterexample:
  "\<not> (\<forall>l r. \<not> (version l \<noteq> None \<and> version r \<noteq> None) \<and>
            updatedAt l \<noteq> None \<and> updatedAt r \<noteq> None \<longrightarrow>
            detectConflict (Some l) r = (updatedAt l \<noteq> updatedAt r))"
proof
  assume h: "\<forall>l r. \<not> (version l \<noteq> None \<and> version r \<noteq> None) \<and>
            updatedAt l \<noteq> None \<and> updatedAt r \<noteq> None \<longrightarrow>
            detectConflict (Some l) r = (updatedAt l \<noteq> updatedAt r)"
  have "detectConflict (Some (row 1 None (Some 0) ''a'')) (row 1 None (Some 0) ''a'')
        = (updatedAt (row 1 None (Some 0) ''a'') \<noteq> updatedAt (row 1 None (Some 0) ''a''))"
    using h by (simp add: row_def)
  then show False by (simp add: detectConflict_def row_def truthyDate_def)
qed

text \<open>
  C7. \<^verbatim>\<open>resolve\<close> returns the remote row under \<^verbatim>\<open>server-wins\<close> and the local
  row under \<^verbatim>\<open>client-wins\<close>; under \<^verbatim>\<open>lww\<close> the local row when its timestamp
  is the larger and the remote row when it is the smaller or the two are equal (a
  missing timestamp counts as 0); under \<^verbatim>\<open>custom\<close> with a resolver configured,
  what the resolver returns. Under \<^verbatim>\<open>server-wins\<close> and \<^verbatim>\<open>client-wins\<close> the
  result depends on the local and the remote row alone: not on the events emitted so
  far, the other fields of the conflict, or a configured resolver.
\<close>

theorem resolve_policies:
  "(policy cc = ''server-wins'' \<longrightarrow> fst (resolve cc c evs) = Inr (remote c))
   \<and> (policy cc = ''client-wins'' \<longrightarrow> fst (resolve cc c evs) = Inr (local c))
   \<and> (policy cc = ''lww'' \<longrightarrow>
        fst (resolve cc c evs) =
          Inr (if or_zero (remoteTimestamp c) < or_zero (localTimestamp c)
               then local c else remote c))
   \<and> (policy cc = ''lww'' \<and> localTimestamp c = Some a \<and> remoteTimestamp c = Some b \<longrightarrow>
        (b < a \<longrightarrow> fst (resolve cc c evs) = Inr (local c)) \<and>
        (a < b \<longrightarrow> fst (resolve cc c evs) = Inr (remote c)) \<and>
        (a = b \<longrightarrow> fst (resolve cc c evs) = Inr (remote c)))
   \<and> (policy cc = ''custom'' \<and> onConflict cc = Some f \<longrightarrow> fst (resolve cc c evs) = f c)
   \<and> ((policy cc = ''server-wins'' \<or> policy cc = ''client-wins'') \<and>
        policy cc' = policy cc \<and> local c' = local c \<and> remote c' = remote c \<longrightarrow>
        fst (resolve cc' c' evs') = fst (resolve cc c evs))"
proof -
  have sw: "policy cc = ''server-wins'' \<Longrightarrow> fst (resolve cc c evs) = Inr (remote c)"
    for cc c evs
    using resolve_builtin [of cc c evs] by (simp add: getStrategy_simps serverWins_def)
  have cw: "policy cc = ''client-wins'' \<Longrightarrow> fst (resolve cc c evs) = Inr (local c)"
    for cc c evs
    using resolve_builtin [of cc c evs] by (simp add: getStrategy_simps clientWins_def)
  have lww: "policy cc = ''lww'' \<Longrightarrow>
        fst (resolve cc c evs) =
          Inr (if or_zero (remoteTimestamp c) < or_zero (localTimestamp c)
               then local c else remote c)"
    using resolve_builtin [of cc c evs]
    by (simp add: getStrategy_simps lastWriteWins_def Let_def)
  have custom: "policy cc = ''custom'' \<and> onConflict cc = Some f \<Longrightarrow> fst (resolve cc c evs) = f c"
    by (simp add: resolve_def Let_def)
  show ?thesis
    using sw [of cc c evs] sw [of cc' c' evs'] cw [of cc c evs] cw [of cc' c' evs'] lww custom
    by (auto simp: or_zero_def)
qed

text \<open>
  C10. A policy that is none of \<^verbatim>\<open>server-wins\<close>, \<^verbatim>\<open>client-wins\<close> and
  \<^verbatim>\<open>lww\<close>, and that is not \<^verbatim>\<open>custom\<close> with a resolver configured, resolves
  to the remote row.
\<close>

theorem resolve_fallback:
  assumes "policy cc \<noteq> ''server-wins''" "policy cc \<noteq> ''client-wins''" "policy cc \<noteq> ''lww''"
    and "policy cc \<noteq> ''custom'' \<or> onConflict cc = None"
  shows "fst (resolve cc c evs) = Inr (remote c)"
  using resolve_builtin [OF assms(4), of c evs] assms(1-3)
  by (simp add: getStrategy_def serverWins_def)

theorem resolve_policies_witness:
  "fst (resolve (builtin ''server-wins'')
         (conflictOf (row 1 None (Some 100) ''mine'') (row 1 None (Some 200) ''theirs'')) []) =
     Inr (row 1 None (Some 200) ''theirs'')
   \<and> fst (resolve (builtin ''client-wins'')
         (conflictOf (row 1 None (Some 100) ''mine'') (row 1 None (Some 200) ''theirs'')) []) =
     Inr (row 1 None (Some 100) ''mine'')
   \<and> fst (resolve (builtin ''lww'')
         (conflictOf (row 1 None (Some 100) ''mine'') (row 1 None (Some 200) ''theirs'')) []) =
     Inr (row 1 None (Some 200) ''theirs'')
   \<and> fst (resolve (builtin ''lww'')
         (conflictOf (row 1 None (Some 300) ''mine'') (row 1 None (Some 200) ''theirs'')) []) =
     Inr (row 1 None (Some 300) ''mine'')
   \<and> fst (resolve (builtin ''lww'')
         (conflictOf (row 1 None (Some 200) ''mine'') (row 1 None (Some 200) ''theirs'')) []) =
     Inr (row 1 None (Some 200) ''theirs'')
   \<and> fst (resolve \<lparr>policy = ''custom'', onConflict = Some keepLocal\<rparr>
         (conflictOf (row 1 None (Some 100) ''mine'') (row 1 None (Some 200) ''theirs'')) []) =
     Inr (row 1 None (Some 200) ''mine'')
   \<and> fst (resolve \<lparr>policy = ''server-wins'', onConflict = Some keepLocal\<rparr>
         (conflictOf (row 1 None (Some 100) ''mine'') (row 1 None (Some 200) ''theirs''))
         [EvConflict]) =
     fst (resolve (builtin ''server-wins'')
         (conflictOf (row 1 None (Some 100) ''mine'') (row 1 None (Some 200) ''theirs'')) [])"
  using
    resolve_policies [of "builtin ''server-wins''"
      "conflictOf (row 1 None (Some 100) ''mine'') (row 1 None (Some 200) ''theirs'')" "[]"
      100 200 keepLocal "\<lparr>policy = ''server-wins'', onConflict = Some keepLocal\<rparr>"
      "conflictOf (row 1 None (Some 100) ''mine'') (row 1 None (Some 200) ''theirs'')"
      "[EvConflict]"]
    resolve_policies [of "builtin ''client-wins''"
      "conflictOf (row 1 None (Some 100) ''mine'') (row 1 None (Some 200) ''theirs'')" "[]"
      100 200 keepLocal "builtin ''client-wins''"
      "conflictOf (row 1 None (Some 100) ''mine'') (row 1 None (Some 200) ''theirs'')" "[]"]
    resolve_policies [of "builtin ''lww''"
      "conflictOf (row 1 None (Some 100) ''mine'') (row 1 None (Some 200) ''theirs'')" "[]"
      100 200 keepLocal "builtin ''lww''"
      "conflictOf (row 1 None (Some 100) ''mine'') (row 1 None (Some 200) ''theirs'')" "[]"]
    resolve_policies [of "builtin ''lww''"
      "conflictOf (row 1 None (Some 300) ''mine'') (row 1 None (Some 200) ''theirs'')" "[]"
      300 200 keepLocal "builtin ''lww''"
      "conflictOf (row 1 None (Some 300) ''mine'') (row 1 None (Some 200) ''theirs'')" "[]"]
    resolve_policies [of "builtin ''lww''"
      "conflictOf (row 1 None (Some 200) ''mine'') (row 1 None (Some 200) ''theirs'')" "[]"
      200 200 keepLocal "builtin ''lww''"
      "conflictOf (row 1 None (Some 200) ''mine'') (row 1 None (Some 200) ''theirs'')" "[]"]
    resolve_policies [of "\<lparr>policy = ''custom'', onConflict = Some keepLocal\<rparr>"
      "conflictOf (row 1 None (Some 100) ''mine'') (row 1 None (Some 200) ''theirs'')" "[]"
      100 200 keepLocal "\<lparr>policy = ''custom'', onConflict = Some keepLocal\<rparr>"
      "conflictOf (row 1 None (Some 100) ''mine'') (row 1 None (Some 200) ''theirs'')" "[]"]
  by (simp add: builtin_def conflictOf_def row_def keepLocal_def timestampOf_def truthyDate_def
        getTime_def or_zero_def)

theorem resolve_fallback_witness:
  "fst (resolve (builtin ''custom'')
         (conflictOf (row 1 None (Some 300) ''mine'') (row 1 None (Some 200) ''theirs'')) []) =
     Inr (row 1 None (Some 200) ''theirs'')
   \<and> fst (resolve \<lparr>policy = ''newest'', onConflict = Some keepLocal\<rparr>
         (conflictOf (row 1 None (Some 300) ''mine'') (row 1 None (Some 200) ''theirs'')) []) =
     Inr (row 1 None (Some 200) ''theirs'')"
  using
    resolve_fallback [of "builtin ''custom''"
      "conflictOf (row 1 None (Some 300) ''mine'') (row 1 None (Some 200) ''theirs'')" "[]"]
    resolve_fallback [of "\<lparr>policy = ''newest'', onConflict = Some keepLocal\<rparr>"
      "conflictOf (row 1 None (Some 300) ''mine'') (row 1 None (Some 200) ''theirs'')" "[]"]
  by (simp add: builtin_def conflictOf_def row_def)

section \<open>Properties of the change applier\<close>

lemma put_outbox: "outbox (put t e db) = outbox db"
  by (simp add: put_def)

lemma put_lookup: "tables (put t e db) t (eid e) = Some e"
  by (simp add: put_def)

lemma applyItem_no_pending:
  "\<not> hasPendingChange t item (a_db st) \<Longrightarrow>
   a_db (applyItem cfg t item st) = put t item (a_db st)"
  by (simp add: applyItem_def Let_def)

lemma applyItem_no_conflict:
  "\<not> (cfg_conflicts cfg \<noteq> None \<and> detectConflict (tables (a_db st) t (eid item)) item) \<Longrightarrow>
   a_db (applyItem cfg t item st) = put t item (a_db st)"
  by (auto simp: applyItem_def Let_def split: option.splits)

lemma applyItem_outbox: "outbox (a_db (applyItem cfg t item st)) = outbox (a_db st)"
  by (auto simp: applyItem_def Let_def put_outbox split: option.splits sum.splits prod.splits)

lemma fold_applyItem_outbox:
  "outbox (a_db (fold (applyItem cfg t) items st)) = outbox (a_db st)"
  by (induction items arbitrary: st) (simp_all add: applyItem_outbox)

lemma applyChanges_outbox:
  "outbox (a_db (applyChanges cfg t items (db, evs))) = outbox db"
  by (simp add: applyChanges_def fold_applyItem_outbox)

lemma hasPendingChange_outbox:
  "outbox db' = outbox db \<Longrightarrow> hasPendingChange t item db' = hasPendingChange t item db"
  by (simp add: hasPendingChange_def outbox_getAll_def)

lemma applyChanges_pending:
  "hasPendingChange t item (a_db (applyChanges cfg t pre (db, evs))) = hasPendingChange t item db"
  by (rule hasPendingChange_outbox) (rule applyChanges_outbox)

lemma applyItem_applied_no_pending:
  "\<not> hasPendingChange t item (a_db st) \<Longrightarrow>
   a_applied (applyItem cfg t item st) = a_applied st + 1"
  by (simp add: applyItem_def Let_def)

lemma applyItem_applied_no_conflict:
  "\<not> (cfg_conflicts cfg \<noteq> None \<and> detectConflict (tables (a_db st) t (eid item)) item) \<Longrightarrow>
   a_applied (applyItem cfg t item st) = a_applied st + 1"
  by (auto simp: applyItem_def Let_def split: option.splits)

text \<open>
  C8. \<^verbatim>\<open>applyChanges\<close> starts from the store as it is and handles the remote rows one
  after the other, each with the loop body \<open>applyItem\<close>. For every incoming row, with
  the rows before it already handled: when no outbox entry of the table has the row's id
  as its key, the row is written (the store is the store before it with the row put
  under its id) and counted as applied; likewise when there is such an entry but no
  conflict is detected (no resolver configured, no local row, or
  \<^verbatim>\<open>detectConflict\<close> false). Writing leaves the outbox alone, and so do the loop body
  and the whole of \<^verbatim>\<open>applyChanges\<close>: the pending entry stays queued.
\<close>

theorem applyChanges_writes_remote:
  "applyChanges cfg t [] (db, evs) =
      \<lparr>a_db = db, a_log = evs, a_applied = 0, a_conflicts = 0\<rparr>
   \<and> applyChanges cfg t (pre @ [item]) (db, evs) =
      applyItem cfg t item (applyChanges cfg t pre (db, evs))
   \<and> (\<not> hasPendingChange t item db \<longrightarrow>
        a_db (applyChanges cfg t (pre @ [item]) (db, evs)) =
          put t item (a_db (applyChanges cfg t pre (db, evs))) \<and>
        tables (a_db (applyChanges cfg t (pre @ [item]) (db, evs))) t (eid item) = Some item \<and>
        a_applied (applyChanges cfg t (pre @ [item]) (db, evs)) =
          a_applied (applyChanges cfg t pre (db, evs)) + 1)
   \<and> (hasPendingChange t item db \<and>
       \<not> (cfg_conflicts cfg \<noteq> None \<and>
          detectConflict (tables (a_db (applyChanges cfg t pre (db, evs))) t (eid item)) item) \<longrightarrow>
        a_db (applyChanges cfg t (pre @ [item]) (db, evs)) =
          put t item (a_db (applyChanges cfg t pre (db, evs))) \<and>
        tables (a_db (applyChanges cfg t (pre @ [item]) (db, evs))) t (eid item) = Some item \<and>
        a_applied (applyChanges cfg t (pre @ [item]) (db, evs)) =
          a_applied (applyChanges cfg t pre (db, evs)) + 1)
   \<and> (\<not> hasPendingChange t item (a_db st) \<longrightarrow>
      a_db (applyItem cfg t item st) = put t item (a_db st))
   \<and> (hasPendingChange t item (a_db st) \<and>
       \<not> (cfg_conflicts cfg \<noteq> None \<and> detectConflict (tables (a_db st) t (eid item)) item) \<longrightarrow>
      a_db (applyItem cfg t item st) = put t item (a_db st))
   \<and> tables (put t item (a_db st)) t (eid item) = Some item
   \<and> outbox (put t item (a_db st)) = outbox (a_db st)
   \<and> outbox (a_db (applyItem cfg t item st)) = outbox (a_db st)
   \<and> outbox (a_db (applyChanges cfg t items (db, evs))) = outbox db"
proof -
  let ?before = "applyChanges cfg t pre (db, evs)"
  let ?after = "applyChanges cfg t (pre @ [item]) (db, evs)"
  have start: "applyChanges cfg t [] (db, evs) =
      \<lparr>a_db = db, a_log = evs, a_applied = 0, a_conflicts = 0\<rparr>"
    by (simp add: applyChanges_def)
  have step: "?after = applyItem cfg t item ?before"
    by (simp add: applyChanges_def)
  have pend: "hasPendingChange t item (a_db ?before) = hasPendingChange t item db"
    by (rule applyChanges_pending)
  have free: "a_db ?after = put t item (a_db ?before) \<and>
        tables (a_db ?after) t (eid item) = Some item \<and>
        a_applied ?after = a_applied ?before + 1"
    if "\<not> hasPendingChange t item db"
    using that applyItem_no_pending [of t item ?before cfg]
      applyItem_applied_no_pending [of t item ?before cfg]
    by (simp add: step pend put_lookup)
  have calm: "a_db ?after = put t item (a_db ?before) \<and>
        tables (a_db ?after) t (eid item) = Some item \<and>
        a_applied ?after = a_applied ?before + 1"
    if "\<not> (cfg_conflicts cfg \<noteq> None \<and>
          detectConflict (tables (a_db ?before) t (eid item)) item)"
    using applyItem_no_conflict [OF that] applyItem_applied_no_conflict [OF that]
    by (simp add: step put_lookup)
  have body: "(\<not> hasPendingChange t item (a_db st) \<longrightarrow>
      a_db (applyItem cfg t item st) = put t item (a_db st))
   \<and> (hasPendingChange t item (a_db st) \<and>
       \<not> (cfg_conflicts cfg \<noteq> None \<and> detectConflict (tables (a_db st) t (eid item)) item) \<longrightarrow>
      a_db (applyItem cfg t item st) = put t item (a_db st))"
    using applyItem_no_pending [of t item st cfg] applyItem_no_conflict [of cfg st t item]
    by simp
  show ?thesis
    using free calm body
    by (simp only: start step [symmetric] put_outbox put_lookup applyItem_outbox
          applyChanges_outbox simp_thms)
       blast
qed

text \<open>
  One pending update for key 1 of \<^verbatim>\<open>posts\<close>, whose local row has version 2. The
  remote row 1 has a pending entry and the same version; the remote row 2 has no
  pending entry. Both are written, both are counted, and the entry stays queued.
\<close>

theorem applyChanges_writes_remote_witness:
  "tables (a_db (applyChanges (sampleConfig (Some (builtin ''client-wins''))) ''posts''
       [row 1 (Some 2) (Some 200) ''theirs''] (pendingDb, []))) ''posts'' (KNum 1) =
     Some (row 1 (Some 2) (Some 200) ''theirs'')
   \<and> tables (a_db (applyChanges (sampleConfig (Some (builtin ''client-wins''))) ''posts''
       [row 1 (Some 2) (Some 200) ''theirs'', row 2 None (Some 200) ''new''] (pendingDb, [])))
       ''posts'' (KNum 2) =
     Some (row 2 None (Some 200) ''new'')
   \<and> tables (a_db (applyChanges (sampleConfig (Some (builtin ''client-wins''))) ''posts''
       [row 1 (Some 2) (Some 200) ''theirs'', row 2 None (Some 200) ''new''] (pendingDb, [])))
       ''posts'' (KNum 1) =
     Some (row 1 (Some 2) (Some 200) ''theirs'')
   \<and> a_applied (applyChanges (sampleConfig (Some (builtin ''client-wins''))) ''posts''
       [row 1 (Some 2) (Some 200) ''theirs'', row 2 None (Some 200) ''new''] (pendingDb, [])) = 2
   \<and> tables (a_db (applyItem (sampleConfig (Some (builtin ''client-wins''))) ''posts''
       (row 2 None (Some 200) ''new'') (startState pendingDb))) ''posts'' (KNum 2) =
     Some (row 2 None (Some 200) ''new'')
   \<and> tables (a_db (applyItem (sampleConfig (Some (builtin ''client-wins''))) ''posts''
       (row 1 (Some 2) (Some 200) ''theirs'') (startState pendingDb))) ''posts'' (KNum 1) =
     Some (row 1 (Some 2) (Some 200) ''theirs'')
   \<and> outbox (a_db (applyChanges (sampleConfig (Some (builtin ''client-wins''))) ''posts''
       [row 1 (Some 2) (Some 200) ''theirs'', row 2 None (Some 200) ''new''] (pendingDb, []))) =
     [sampleItem 1 ''posts'' 1 0]"
  using
    applyChanges_writes_remote [where cfg = "sampleConfig (Some (builtin ''client-wins''))"
      and t = "''posts''" and db = pendingDb and evs = "[]"
      and pre = "[row 1 (Some 2) (Some 200) ''theirs'']"
      and item = "row 2 None (Some 200) ''new''" and st = "startState pendingDb"
      and items = "[row 1 (Some 2) (Some 200) ''theirs'', row 2 None (Some 200) ''new'']"]
    applyChanges_writes_remote [where cfg = "sampleConfig (Some (builtin ''client-wins''))"
      and t = "''posts''" and db = pendingDb and evs = "[]"
      and pre = "[]"
      and item = "row 1 (Some 2) (Some 200) ''theirs''" and st = "startState pendingDb"
      and items = "[row 1 (Some 2) (Some 200) ''theirs'', row 2 None (Some 200) ''new'']"]
  by (simp add: applyChanges_def applyItem_def hasPendingChange_def outbox_getAll_def
        detectConflict_def pendingDb_def startState_def localRows_def row_def sampleDb_def
        sampleItem_def sampleConfig_def builtin_def put_def truthyDate_def getTime_def
        strictNeq_def Let_def)

section \<open>Properties of the sync engine\<close>

text \<open>Events are only ever appended.\<close>

lemma resolve_log: "snd (resolve cc c evs) = evs @ [EvConflict]"
  by (simp add: resolve_def emit_def Let_def split: option.splits)

lemma resolveConflict_log:
  "\<exists>ys. snd (resolveConflict cfg t k l r evs) = evs @ ys"
  by (cases "cfg_conflicts cfg") (simp_all add: resolveConflict_def Let_def resolve_log)

lemma applyItem_log: "\<exists>ys. a_log (applyItem cfg t item st) = a_log st @ ys"
proof -
  obtain ys where
    "snd (resolveConflict cfg t (eid item) (the (tables (a_db st) t (eid item))) item (a_log st)) =
       a_log st @ ys"
    using resolveConflict_log by blast
  then show ?thesis
    by (auto simp: applyItem_def Let_def split: option.splits sum.splits prod.splits)
qed

lemma fold_applyItem_log: "\<exists>ys. a_log (fold (applyItem cfg t) items st) = a_log st @ ys"
proof (induction items arbitrary: st)
  case Nil
  show ?case by simp
next
  case (Cons item items)
  obtain ys where 1: "a_log (applyItem cfg t item st) = a_log st @ ys"
    using applyItem_log by blast
  obtain zs where
    "a_log (fold (applyItem cfg t) items (applyItem cfg t item st)) =
       a_log (applyItem cfg t item st) @ zs"
    using Cons.IH by blast
  then show ?case using 1 by simp
qed

lemma pullTable_log: "\<exists>ys. p_log (pullTable penv cfg n st) = p_log st @ ys"
proof (cases "fetch penv n")
  case (Inl e)
  then show ?thesis by (simp add: pullTable_def Let_def)
next
  case (Inr items)
  obtain ys where
    "a_log (fold (applyItem cfg n) items
       \<lparr>a_db = p_db st, a_log = p_log st, a_applied = 0, a_conflicts = 0\<rparr>) = p_log st @ ys"
    using fold_applyItem_log [of cfg n items
      "\<lparr>a_db = p_db st, a_log = p_log st, a_applied = 0, a_conflicts = 0\<rparr>"] by auto
  then show ?thesis using Inr by (simp add: pullTable_def Let_def applyChanges_def)
qed

lemma fold_pullTable_log: "\<exists>ys. p_log (fold (pullTable penv cfg) ns st) = p_log st @ ys"
proof (induction ns arbitrary: st)
  case Nil
  show ?case by simp
next
  case (Cons n ns)
  obtain ys where 1: "p_log (pullTable penv cfg n st) = p_log st @ ys"
    using pullTable_log by blast
  obtain zs where
    "p_log (fold (pullTable penv cfg) ns (pullTable penv cfg n st)) =
       p_log (pullTable penv cfg n st) @ zs"
    using Cons.IH by blast
  then show ?case using 1 by simp
qed

lemma pull_log: "\<exists>ys. p_log (pull penv cfg t (db, evs)) = evs @ ys"
  using fold_pullTable_log [of penv cfg "pullTables cfg t"
    "\<lparr>p_db = db, p_log = evs,
      p_result = \<lparr>pull_success = True, pulled = 0, applied = 0, conflicts = 0,
                  pull_errors = []\<rparr>\<rparr>"]
  by (simp add: pull_def Let_def)

lemma sync_cycle_runs:
  "\<exists>result eng' evs.
     sync_cycle env penv now eng = Some (result, eng') \<and>
     emitted eng' = emitted eng @ [EvPushStart] @ evs @ [EvSyncComplete] \<and>
     \<not> isSyncingFlag eng'"
proof -
  obtain db' res where p: "push env (config eng) now None (store eng) = Some (db', res)"
    using push_total by blast
  define eng1 where "eng1 = (emitE EvPushStart eng)\<lparr>store := db'\<rparr>"
  define eng2 where "eng2 = emitE EvPushComplete eng1"
  define eng3 where "eng3 = (if \<not> success res then emitE EvPushError eng2 else eng2)"
  define pr where "pr = engine_pull penv None (emitE EvPullStart eng3)"
  define eng5 where "eng5 = emitE EvPullComplete (snd pr)"
  define eng6 where "eng6 = (if \<not> pull_success (fst pr) then emitE EvPullError eng5 else eng5)"
  define eng7 where "eng7 = (emitE EvSyncComplete eng6)\<lparr>isSyncingFlag := False\<rparr>"
  have run: "sync_cycle env penv now eng =
      Some (\<lparr>sync_success = (success res \<and> pull_success (fst pr)),
              push_part = res, pull_part = fst pr\<rparr>, eng7)"
    using p
    by (simp add: sync_cycle_def engine_push_def emitE_def Let_def case_prod_beta
          eng1_def eng2_def eng3_def pr_def eng5_def eng6_def eng7_def)
  have e3: "\<exists>ys. emitted eng3 = emitted eng @ [EvPushStart] @ ys"
    by (simp add: eng3_def eng2_def eng1_def emitE_def emit_def)
  obtain ys where ys: "emitted (snd pr) = emitted eng3 @ [EvPullStart] @ ys"
    using pull_log [of penv "config eng3" None "store eng3" "emitted eng3 @ [EvPullStart]"]
    by (auto simp: pr_def engine_pull_def emitE_def emit_def Let_def)
  have e6: "\<exists>zs. emitted eng6 = emitted (snd pr) @ zs"
    by (simp add: eng6_def eng5_def emitE_def emit_def)
  have "\<exists>evs. emitted eng7 = emitted eng @ [EvPushStart] @ evs @ [EvSyncComplete]"
    using e3 e6 ys by (auto simp: eng7_def emitE_def emit_def)
  moreover have "\<not> isSyncingFlag eng7" by (simp add: eng7_def)
  ultimately show ?thesis using run by blast
qed

text \<open>
  C4. When the engine is offline, paused or already syncing, \<^verbatim>\<open>sync\<close> throws the
  error of the first guard that applies and leaves the engine as it was: no flag set,
  no event emitted. In every other state it sets the running flag, emits
  \<^verbatim>\<open>sync-start\<close>, runs push and then pull, and returns a result, with
  \<^verbatim>\<open>sync-complete\<close> emitted last and the running flag cleared.
\<close>

theorem sync_fails_fast:
  "(\<not> onlineStatus eng \<or> isPausedFlag eng \<or> isSyncingFlag eng \<longrightarrow>
      sync env penv now eng =
        Some (Inl (if \<not> onlineStatus eng then ''Cannot sync while offline''
                   else if isPausedFlag eng then ''Sync is paused''
                   else ''Sync already in progress''), eng))
   \<and> (onlineStatus eng \<and> \<not> isPausedFlag eng \<and> \<not> isSyncingFlag eng \<longrightarrow>
      sync_enter eng =
        Inr (eng\<lparr>isSyncingFlag := True, emitted := emitted eng @ [EvSyncStart]\<rparr>) \<and>
      (\<exists>result eng' evs.
         sync env penv now eng = Some (Inr result, eng') \<and>
         emitted eng' = emitted eng @ [EvSyncStart, EvPushStart] @ evs @ [EvSyncComplete] \<and>
         \<not> isSyncingFlag eng'))"
proof (intro conjI impI)
  assume "\<not> onlineStatus eng \<or> isPausedFlag eng \<or> isSyncingFlag eng"
  then show "sync env penv now eng =
        Some (Inl (if \<not> onlineStatus eng then ''Cannot sync while offline''
                   else if isPausedFlag eng then ''Sync is paused''
                   else ''Sync already in progress''), eng)"
    by (auto simp: sync_def sync_enter_def)
next
  assume ok: "onlineStatus eng \<and> \<not> isPausedFlag eng \<and> \<not> isSyncingFlag eng"
  then show "sync_enter eng =
        Inr (eng\<lparr>isSyncingFlag := True, emitted := emitted eng @ [EvSyncStart]\<rparr>)"
    by (simp add: sync_enter_def emit_def)
next
  assume ok: "onlineStatus eng \<and> \<not> isPausedFlag eng \<and> \<not> isSyncingFlag eng"
  let ?eng1 = "eng\<lparr>isSyncingFlag := True, emitted := emitted eng @ [EvSyncStart]\<rparr>"
  have enter: "sync_enter eng = Inr ?eng1"
    using ok by (simp add: sync_enter_def emit_def)
  obtain result eng' evs where
    c: "sync_cycle env penv now ?eng1 = Some (result, eng')"
    and e: "emitted eng' = emitted ?eng1 @ [EvPushStart] @ evs @ [EvSyncComplete]"
    and f: "\<not> isSyncingFlag eng'"
    using sync_cycle_runs [of env penv now ?eng1] by blast
  have "sync env penv now eng = Some (Inr result, eng')"
    by (simp add: sync_def enter c)
  moreover have "emitted eng' = emitted eng @ [EvSyncStart, EvPushStart] @ evs @ [EvSyncComplete]"
    using e by simp
  ultimately show "\<exists>result eng' evs.
         sync env penv now eng = Some (Inr result, eng') \<and>
         emitted eng' = emitted eng @ [EvSyncStart, EvPushStart] @ evs @ [EvSyncComplete] \<and>
         \<not> isSyncingFlag eng'"
    using f by blast
qed

theorem sync_fails_fast_witness:
  "sync allAccepted oneRemoteRow 100 (sampleEngine False False False) =
     Some (Inl ''Cannot sync while offline'', sampleEngine False False False)
   \<and> sync allAccepted oneRemoteRow 100 (sampleEngine True True False) =
     Some (Inl ''Sync is paused'', sampleEngine True True False)
   \<and> sync allAccepted oneRemoteRow 100 (sampleEngine True False True) =
     Some (Inl ''Sync already in progress'', sampleEngine True False True)
   \<and> (\<exists>result eng' evs.
        sync allAccepted oneRemoteRow 100 (sampleEngine True False False) =
          Some (Inr result, eng') \<and>
        emitted eng' = [EvSyncStart, EvPushStart] @ evs @ [EvSyncComplete] \<and>
        \<not> isSyncingFlag eng')"
  using sync_fails_fast [of "sampleEngine False False False" allAccepted oneRemoteRow 100]
    sync_fails_fast [of "sampleEngine True True False" allAccepted oneRemoteRow 100]
    sync_fails_fast [of "sampleEngine True False True" allAccepted oneRemoteRow 100]
    sync_fails_fast [of "sampleEngine True False False" allAccepted oneRemoteRow 100]
  by (simp add: sampleEngine_def)

text \<open>
  C2. \<^verbatim>\<open>pauseTable\<close> records the table, and nothing reads the record: with
  \<^verbatim>\<open>posts\<close> paused, \<^verbatim>\<open>push()\<close> still dispatches the pending \<^verbatim>\<open>posts\<close>
  entry (one pushed, outbox empty afterwards) and \<^verbatim>\<open>pull()\<close> still fetches and
  writes the remote \<^verbatim>\<open>posts\<close> row.
\<close>

theorem pauseTable_not_consulted:
  "''posts'' \<in> pausedTables (pauseTable ''posts'' (sampleEngine True False False))
   \<and> map_option (\<lambda>r. (pushed (fst r), outbox (store (snd r))))
       (engine_push allAccepted 100 None (pauseTable ''posts'' (sampleEngine True False False))) =
     Some (1, [])
   \<and> pulled (fst (engine_pull oneRemoteRow None
       (pauseTable ''posts'' (sampleEngine True False False)))) = 1
   \<and> tables (store (snd (engine_pull oneRemoteRow None
       (pauseTable ''posts'' (sampleEngine True False False))))) ''posts'' (KNum 9) =
     Some (row 9 None (Some 200) ''theirs'')"
  by (simp add: pauseTable_def sampleEngine_def allAccepted_def oneRemoteRow_def
        engine_push_def engine_pull_def push_eq filteredItems_def outbox_getPending_def
        is_pending_def pushItem_def outbox_remove_def sampleDb_def sampleItem_def
        sampleConfig_def sampleEnv_def
        pull_def pullTables_def pullTable_def applyChanges_def applyItem_def
        hasPendingChange_def outbox_getAll_def put_def row_def Let_def)

section \<open>Leader election under a race\<close>

lemma deliverFrom_length: "length (deliverFrom i j m tabs) = length tabs"
  by (induction tabs arbitrary: j) simp_all

lemma deliverFrom_nth:
  "k < length tabs \<Longrightarrow>
   deliverFrom i j m tabs ! k =
     (if j + k = i then tabs ! k else (tabs ! k)\<lparr>inbox := inbox (tabs ! k) @ [m]\<rparr>)"
proof (induction tabs arbitrary: j k)
  case Nil
  then show ?case by simp
next
  case (Cons t ts)
  show ?case
  proof (cases k)
    case 0
    then show ?thesis by simp
  next
    case (Suc k')
    then show ?thesis using Cons.IH [of k' "Suc j"] Cons.prems by simp
  qed
qed

lemma postMessage_own: "i < length tabs \<Longrightarrow> postMessage i m tabs ! i = tabs ! i"
  by (simp add: postMessage_def deliverFrom_nth)

text \<open>
  Whatever has been received in the meantime, the timer of a tab that has called
  \<^verbatim>\<open>electLeader\<close> makes it leader.
\<close>

lemma electionTimer_sets_flag:
  "i < length tabs \<Longrightarrow> truthy (electionTimeout (tabs ! i)) \<Longrightarrow>
   isLeaderFlag (electionTimer i tabs ! i)"
  by (simp add: electionTimer_def Let_def postMessage_own)

lemma electLeader_sets_timeout:
  "i < length tabs \<Longrightarrow> electionTimeout (electLeader now i tabs ! i) = Some now"
  by (simp add: electLeader_def Let_def postMessage_own)

lemma onmessage_keeps_timeout:
  "i < length tabs \<Longrightarrow>
   electionTimeout (onmessage now i m tabs ! i) = electionTimeout (tabs ! i)"
  by (cases "mtype m") (simp_all add: onmessage_def Let_def postMessage_own)

text \<open>
  C5. In the run of \<open>raceSchedule\<close> both tabs set their flag when their timer fires
  (two leaders after the eighth callback), each then receives the other's
  \<^verbatim>\<open>leader\<close> announcement and clears it. No timer is pending and no message is
  undelivered, and no tab is leader.
\<close>

theorem election_race_leaves_no_leader:
  "settled (run raceSchedule twoTabs) \<and> leaders (run raceSchedule twoTabs) = []
   \<and> leaders (run (take 8 raceSchedule) twoTabs) = [''tab-a'', ''tab-b'']"
  by (simp add: run_def raceSchedule_def twoTabs_def newTab_def settled_def leaders_def
        electLeader_def electionTimer_def onmessage_def postMessage_def earlier_def
        truthy_def Let_def)

end
